theory Spec2Isabelle
  imports Complex_Main "HOL-Library.Sublist"
begin

section \<open>Strings\<close>

text \<open>
  A JavaScript string is modelled as the list of its code units, restricted to the
  code units below 256 (the type \<open>char\<close>). The backquote and the line feed have no
  literal notation inside HOL strings, so they get names.
\<close>

definition backquote :: char where
  "backquote = CHR 0x60"

definition nl :: char where
  "nl = CHR 0x0A"

definition fence :: string where
  "fence = [backquote, backquote, backquote]"

text \<open>
  The white space of \<open>String.prototype.trim\<close> and of the regular expression class
  \<open>\s\<close>, among the code units below 256: tab, line feed, vertical tab, form feed,
  carriage return, space and the no-break space.
\<close>

definition isWhiteSpace :: "char \<Rightarrow> bool" where
  "isWhiteSpace c \<longleftrightarrow> c \<in> set [CHR 0x09, CHR 0x0A, CHR 0x0B, CHR 0x0C, CHR 0x0D, CHR 0x20, CHR 0xA0]"

definition trimStart :: "string \<Rightarrow> string" where
  "trimStart s = dropWhile isWhiteSpace s"

definition trimEnd :: "string \<Rightarrow> string" where
  "trimEnd s = rev (dropWhile isWhiteSpace (rev s))"

definition trim :: "string \<Rightarrow> string" where
  "trim s = trimEnd (trimStart s)"

definition startsWith :: "string \<Rightarrow> string \<Rightarrow> bool" where
  "startsWith s p = prefix p s"

text \<open>\<open>s.includes(sub)\<close>: \<open>sub\<close> occurs in \<open>s\<close> as a contiguous run.\<close>

fun includesStr :: "string \<Rightarrow> string \<Rightarrow> bool" where
  "includesStr [] sub = (sub = [])"
| "includesStr (c # cs) sub = (prefix sub (c # cs) \<or> includesStr cs sub)"

text \<open>\<open>s.split('\n')\<close>: never empty; the empty string splits into one empty line.\<close>

fun splitLines :: "string \<Rightarrow> string list" where
  "splitLines [] = [[]]"
| "splitLines (c # cs) =
     (if c = nl then [] # splitLines cs
      else (case splitLines cs of
              [] \<Rightarrow> [[c]]
            | l # ls \<Rightarrow> (c # l) # ls))"

text \<open>\<open>lines.join('\n')\<close>, the inverse of the split.\<close>

fun joinLines :: "string list \<Rightarrow> string" where
  "joinLines [] = []"
| "joinLines [l] = l"
| "joinLines (l # k # ls) = l @ nl # joinLines (k # ls)"

text \<open>Reading an array at an index: \<open>undefined\<close> (here \<open>None\<close>) out of range.\<close>

definition jsIndex :: "'a list \<Rightarrow> nat \<Rightarrow> 'a option" where
  "jsIndex xs i = (if i < length xs then Some (xs ! i) else None)"

section \<open>Regular expressions\<close>

text \<open>
  The regular expressions of the source are sequences of atoms: a character class under a
  greedy quantifier, an ordered alternation of literals, the brackets of capture group 1 and
  the end-of-input anchor. The matcher backtracks in the order of the JavaScript engine:
  a greedy quantifier first takes as many characters as it can, an alternation tries its
  literals from left to right, and the first way that lets the rest match wins.
\<close>

datatype quant = QOne | QOpt | QStar | QPlus

datatype atom =
    Cls "char \<Rightarrow> bool" quant
  | Alts "string list"
  | GOpen
  | GClose
  | Eoi

definition lit :: "string \<Rightarrow> atom list" where
  "lit s = map (\<lambda>c. Cls (\<lambda>d. d = c) QOne) s"

definition capPush :: "bool \<Rightarrow> string \<Rightarrow> string \<Rightarrow> string" where
  "capPush recording acc s = (if recording then acc @ s else acc)"

text \<open>
  \<open>rmatch atoms input recording acc\<close> matches \<open>atoms\<close> at the start of \<open>input\<close> and
  returns the text of capture group 1 with the input left after the match.
\<close>

function rmatch :: "atom list \<Rightarrow> string \<Rightarrow> bool \<Rightarrow> string \<Rightarrow> (string \<times> string) option" where
  "rmatch [] inp r acc = Some (acc, inp)"
| "rmatch (GOpen # as) inp r acc = rmatch as inp True []"
| "rmatch (GClose # as) inp r acc = rmatch as inp False acc"
| "rmatch (Eoi # as) inp r acc = (if inp = [] then rmatch as inp r acc else None)"
| "rmatch (Alts [] # as) inp r acc = None"
| "rmatch (Alts (l # ls) # as) inp r acc =
     (case (if prefix l inp then rmatch as (drop (length l) inp) r (capPush r acc l) else None) of
        Some m \<Rightarrow> Some m
      | None \<Rightarrow> rmatch (Alts ls # as) inp r acc)"
| "rmatch (Cls p QOne # as) [] r acc = None"
| "rmatch (Cls p QOne # as) (c # cs) r acc =
     (if p c then rmatch as cs r (capPush r acc [c]) else None)"
| "rmatch (Cls p QOpt # as) [] r acc = rmatch as [] r acc"
| "rmatch (Cls p QOpt # as) (c # cs) r acc =
     (case (if p c then rmatch as cs r (capPush r acc [c]) else None) of
        Some m \<Rightarrow> Some m
      | None \<Rightarrow> rmatch as (c # cs) r acc)"
| "rmatch (Cls p QStar # as) [] r acc = rmatch as [] r acc"
| "rmatch (Cls p QStar # as) (c # cs) r acc =
     (case (if p c then rmatch (Cls p QStar # as) cs r (capPush r acc [c]) else None) of
        Some m \<Rightarrow> Some m
      | None \<Rightarrow> rmatch as (c # cs) r acc)"
| "rmatch (Cls p QPlus # as) [] r acc = None"
| "rmatch (Cls p QPlus # as) (c # cs) r acc =
     (if p c then rmatch (Cls p QStar # as) cs r (capPush r acc [c]) else None)"
  by pat_completeness auto
termination
  by (relation "measures [\<lambda>(as, inp, r, acc). length inp,
                          \<lambda>(as, inp, r, acc). length as,
                          \<lambda>(as, inp, r, acc). (case as of Alts ls # _ \<Rightarrow> length ls | _ \<Rightarrow> 0)]")
     auto

text \<open>
  \<open>rsearch\<close> finds the leftmost match: the text skipped before it, the capture and the
  input after it. An anchored expression (\<open>^\<close>, no \<open>m\<close> flag) is tried at the start only.
\<close>

fun rsearch :: "atom list \<Rightarrow> string \<Rightarrow> string \<Rightarrow> (string \<times> string \<times> string) option" where
  "rsearch as pre [] =
     (case rmatch as [] False [] of
        Some (cap, rest) \<Rightarrow> Some (pre, cap, rest)
      | None \<Rightarrow> None)"
| "rsearch as pre (c # cs) =
     (case rmatch as (c # cs) False [] of
        Some (cap, rest) \<Rightarrow> Some (pre, cap, rest)
      | None \<Rightarrow> rsearch as (pre @ [c]) cs)"

text \<open>\<open>s.replace(re, '')\<close> without the \<open>g\<close> flag removes the first match only.\<close>

definition replaceAnchored :: "atom list \<Rightarrow> string \<Rightarrow> string" where
  "replaceAnchored as s =
     (case rmatch as s False [] of
        Some (cap, rest) \<Rightarrow> rest
      | None \<Rightarrow> s)"

definition replaceFirst :: "atom list \<Rightarrow> string \<Rightarrow> string" where
  "replaceFirst as s =
     (case rsearch as [] s of
        Some (pre, cap, rest) \<Rightarrow> pre @ rest
      | None \<Rightarrow> s)"

section \<open>bug-fixer.js: pure functions\<close>

text \<open>The leading fence with its optional language tag and line feed.\<close>

definition openingFence :: "atom list" where
  "openingFence = lit fence @ [Alts [''javascript'', ''js'', ''''], Cls (\<lambda>c. c = nl) QOpt]"

text \<open>The trailing fence with its optional line feed, at the end of the input.\<close>

definition closingFence :: "atom list" where
  "closingFence = [Cls (\<lambda>c. c = nl) QOpt] @ lit fence @ [Eoi]"

definition extractCleanCode :: "string \<Rightarrow> string" where
  "extractCleanCode aiResponse =
     (let cleaned = trim aiResponse;
          cleaned = (if startsWith cleaned fence
                     then replaceFirst closingFence (replaceAnchored openingFence cleaned)
                     else cleaned)
      in trim cleaned)"

function countLoop :: "string list \<Rightarrow> string list \<Rightarrow> nat \<Rightarrow> nat \<Rightarrow> nat \<Rightarrow> nat" where
  "countLoop originalLines fixedLines maxLength i changes =
     (if i < maxLength
      then countLoop originalLines fixedLines maxLength (i + 1)
             (if jsIndex originalLines i \<noteq> jsIndex fixedLines i then changes + 1 else changes)
      else changes)"
  by pat_completeness auto
termination
  by (relation "measure (\<lambda>(originalLines, fixedLines, maxLength, i, changes). maxLength - i)") auto

declare countLoop.simps [simp del]

definition countChangedLines :: "string \<Rightarrow> string \<Rightarrow> nat" where
  "countChangedLines original fixed =
     (let originalLines = splitLines original;
          fixedLines = splitLines fixed;
          maxLength = max (length originalLines) (length fixedLines)
      in countLoop originalLines fixedLines maxLength 0 0)"

section \<open>cost-monitor.js: the cost tracker\<close>

text \<open>
  The numbers of the tracker are JavaScript numbers, IEEE-754 doubles, whose sum and
  difference round. Their operations are therefore not defined here but taken as they
  are: a record of the runtime's addition, subtraction and comparison, of the test that
  makes \<open>a || d\<close> take the default \<open>d\<close> (zero and NaN are falsy) and of the value of a
  numeric literal. Nothing is assumed about them, so whatever is proved below holds of the
  doubles' own operations. The wall-clock date (\<open>new Date().toDateString()\<close>) is an
  argument of every operation that reads it.
\<close>

record 'n number_ops =
  num_add :: "'n \<Rightarrow> 'n \<Rightarrow> 'n"
  num_sub :: "'n \<Rightarrow> 'n \<Rightarrow> 'n"
  num_le :: "'n \<Rightarrow> 'n \<Rightarrow> bool"
  num_falsy :: "'n \<Rightarrow> bool"
  num_lit :: "nat \<Rightarrow> 'n"

definition orNum :: "'n number_ops \<Rightarrow> 'n option \<Rightarrow> 'n \<Rightarrow> 'n" where
  "orNum ops a d = (case a of None \<Rightarrow> d | Some x \<Rightarrow> if num_falsy ops x then d else x)"

record 'n tracker_options =
  to_dailyLimit :: "'n option"
  to_perFixLimit :: "'n option"

record 'n cost_tracker =
  dailySpend :: 'n
  fixCount :: 'n
  lastReset :: string
  dailyLimit :: 'n
  perFixLimit :: 'n


record 'n afford_check =
  ac_allowed :: bool
  ac_withinDailyLimit :: bool
  ac_withinPerFixLimit :: bool
  ac_estimatedCost :: 'n
  ac_dailySpend :: 'n
  ac_remainingDaily :: 'n

definition createCostTracker ::
  "'n number_ops \<Rightarrow> string \<Rightarrow> 'n tracker_options \<Rightarrow> 'n cost_tracker" where
  "createCostTracker ops today options =
     \<lparr>dailySpend = num_lit ops 0, fixCount = num_lit ops 0, lastReset = today,
      dailyLimit = orNum ops (to_dailyLimit options) (num_lit ops 10),
      perFixLimit = orNum ops (to_perFixLimit options) (num_lit ops 2)\<rparr>"

definition checkAndResetDaily ::
  "'n number_ops \<Rightarrow> string \<Rightarrow> 'n cost_tracker \<Rightarrow> 'n cost_tracker" where
  "checkAndResetDaily ops today t =
     (if today \<noteq> lastReset t
      then t\<lparr>dailySpend := num_lit ops 0, fixCount := num_lit ops 0, lastReset := today\<rparr>
      else t)"


definition canAfford ::
  "'n number_ops \<Rightarrow> string \<Rightarrow> 'n \<Rightarrow> 'n cost_tracker \<Rightarrow> 'n afford_check \<times> 'n cost_tracker" where
  "canAfford ops today estimatedCost t =
     (let t1 = checkAndResetDaily ops today t;
          withinDaily = num_le ops (num_add ops (dailySpend t1) estimatedCost) (dailyLimit t1);
          withinPerFix = num_le ops estimatedCost (perFixLimit t1)
      in (\<lparr>ac_allowed = (withinDaily \<and> withinPerFix),
           ac_withinDailyLimit = withinDaily,
           ac_withinPerFixLimit = withinPerFix,
           ac_estimatedCost = estimatedCost,
           ac_dailySpend = dailySpend t1,
           ac_remainingDaily = num_sub ops (dailyLimit t1) (dailySpend t1)\<rparr>, t1))"

section \<open>The world of a fix attempt\<close>

text \<open>
  The state is the working tree (a map from paths to contents) and the history of the
  calls made to the collaborators. The collaborators themselves (the shell, the file
  store's faults, the model, the configuration package, the cost package, the clock) are
  the fields of an environment; each answers from the whole state, so an answer may depend
  on the files and on everything that happened before. Running a shell command does not
  change the working tree. Console output is not modelled. The estimated cost and the
  temperature are only handed from one collaborator to the next: no arithmetic is done on
  them here.
\<close>

type_synonym path = string

datatype js_error = Error string

text \<open>\<open>error.message || String(error)\<close> of an \<open>Error\<close> object.\<close>

fun errorText :: "js_error \<Rightarrow> string" where
  "errorText (Error m) = (if m = [] then ''Error'' else m)"

datatype event =
    EvExec string
  | EvWrite path string
  | EvGenerate string
  | EvTrackCost string nat nat "string option"

record world =
  files :: "path \<rightharpoonup> string"
  trace :: "event list"

text \<open>
  \<open>execSync\<close> returns the command's output or throws an error carrying the captured
  \<open>stdout\<close>, \<open>stderr\<close> and a message. A write either succeeds or throws, and a write that
  throws may leave content of its own in the file (\<open>None\<close>: the file is as it was).
\<close>

datatype exec_outcome = ExecOk string | ExecFail "string option" "string option" string

datatype write_outcome = WriteOk | WriteFault string "string option"

record usage =
  promptTokens :: "nat option"
  completionTokens :: "nat option"

record gen_request =
  gq_prompt :: string
  gq_model :: "string option"
  gq_maxTokens :: "nat option"
  gq_temperature :: "rat option"

record gen_response =
  gr_text :: string
  gr_usage :: "usage option"

record loaded_config =
  lc_model :: "string option"
  lc_maxTokens :: "nat option"
  lc_temperature :: "rat option"
  lc_maxRetries :: "nat option"
  lc_testCommand :: "string option"

record limit_check =
  lim_allowed :: bool
  lim_reason :: "string option"

record env =
  execSync :: "world \<Rightarrow> string \<Rightarrow> exec_outcome"
  writeFileFault :: "world \<Rightarrow> path \<Rightarrow> string \<Rightarrow> write_outcome"
  generateText :: "world \<Rightarrow> gen_request \<Rightarrow> js_error + gen_response"
  getConfig :: "world \<Rightarrow> string \<Rightarrow> js_error + loaded_config"
  buildBugFixPrompt :: "world \<Rightarrow> string \<Rightarrow> string \<Rightarrow> string \<Rightarrow> js_error + string"
  estimateCost :: "string option \<Rightarrow> string \<Rightarrow> nat option \<Rightarrow> rat"
  isWithinLimits :: "rat \<Rightarrow> limit_check"
  toFixed4 :: "rat \<Rightarrow> string"
  trackerAvailable :: "world \<Rightarrow> bool"
  trackCost :: "world \<Rightarrow> string \<Rightarrow> nat \<Rightarrow> nat \<Rightarrow> string option \<Rightarrow> js_error + unit"
  nowISO :: "world \<Rightarrow> string"

definition logEvent :: "event \<Rightarrow> world \<Rightarrow> world" where
  "logEvent e w = w\<lparr>trace := trace w @ [e]\<rparr>"

subsection \<open>JavaScript's defaulting operators on optional values\<close>

definition orStr :: "string option \<Rightarrow> string option \<Rightarrow> string option" where
  "orStr a b = (case a of None \<Rightarrow> b | Some s \<Rightarrow> if s = [] then b else Some s)"

definition orNat :: "nat option \<Rightarrow> nat option \<Rightarrow> nat option" where
  "orNat a b = (case a of None \<Rightarrow> b | Some n \<Rightarrow> if n = 0 then b else Some n)"

definition nullish :: "'a option \<Rightarrow> 'a option \<Rightarrow> 'a option" where
  "nullish a b = (case a of None \<Rightarrow> b | Some x \<Rightarrow> Some x)"

text \<open>A key spread later into an object literal replaces the value written before it.\<close>

definition spread :: "'a option \<Rightarrow> 'a option \<Rightarrow> 'a option" where
  "spread later earlier = (case later of None \<Rightarrow> earlier | Some x \<Rightarrow> Some x)"

section \<open>bug-fixer.js: configuration and results\<close>

record fix_options =
  fo_configPath :: "string option"
  fo_model :: "string option"
  fo_maxTokens :: "nat option"
  fo_temperature :: "rat option"
  fo_maxRetries :: "nat option"
  fo_testCommand :: "string option"
  fo_configType :: "string option"

record fix_config =
  fc_model :: "string option"
  fc_maxTokens :: "nat option"
  fc_temperature :: "rat option"
  fc_maxRetries :: "nat option"
  fc_testCommand :: "string option"

text \<open>
  \<open>createFixConfig\<close> writes the five keys from the options, each falling back on the
  loaded configuration, and then spreads the loaded configuration over them.
\<close>

definition createFixConfig :: "env \<Rightarrow> fix_options \<Rightarrow> world \<Rightarrow> js_error + fix_config" where
  "createFixConfig e options w =
     (let configPath = (case orStr (fo_configPath options) (Some ''.agent-config.json'') of
                          Some p \<Rightarrow> p | None \<Rightarrow> ''.agent-config.json'')
      in case getConfig e w configPath of
           Inl err \<Rightarrow> Inl err
         | Inr config \<Rightarrow>
             Inr \<lparr>fc_model = spread (lc_model config) (orStr (fo_model options) (lc_model config)),
                  fc_maxTokens =
                    spread (lc_maxTokens config) (orNat (fo_maxTokens options) (lc_maxTokens config)),
                  fc_temperature =
                    spread (lc_temperature config)
                      (nullish (fo_temperature options) (lc_temperature config)),
                  fc_maxRetries =
                    spread (lc_maxRetries config) (orNat (fo_maxRetries options) (lc_maxRetries config)),
                  fc_testCommand =
                    spread (lc_testCommand config)
                      (orStr (fo_testCommand options) (lc_testCommand config))\<rparr>)"

text \<open>
  A fix result is one record for both shapes of the source's object: the keys a shape does
  not write are \<open>None\<close>. The metadata is the keys the callers of this module pass.
\<close>

record fix_result =
  fr_success :: bool
  fr_filename :: string
  fr_originalCode :: "string option"
  fr_fixedCode :: "string option"
  fr_timestamp :: string
  fr_linesChanged :: "nat option"
  fr_error :: "string option"
  fr_testOutput :: "string option"
  fr_testError :: "string option"
  fr_model :: "string option"

record fix_metadata =
  md_testOutput :: "string option"
  md_testError :: "string option"
  md_model :: "string option"

definition noMetadata :: fix_metadata where
  "noMetadata = \<lparr>md_testOutput = None, md_testError = None, md_model = None\<rparr>"

definition createSuccessResult ::
  "string \<Rightarrow> string \<Rightarrow> string \<Rightarrow> fix_metadata \<Rightarrow> string \<Rightarrow> fix_result" where
  "createSuccessResult originalCode fixedCode filename metadata timestamp =
     \<lparr>fr_success = True,
      fr_filename = filename,
      fr_originalCode = Some originalCode,
      fr_fixedCode = Some fixedCode,
      fr_timestamp = timestamp,
      fr_linesChanged = Some (countChangedLines originalCode fixedCode),
      fr_error = None,
      fr_testOutput = md_testOutput metadata,
      fr_testError = md_testError metadata,
      fr_model = md_model metadata\<rparr>"

definition createErrorResult :: "string \<Rightarrow> js_error \<Rightarrow> fix_metadata \<Rightarrow> string \<Rightarrow> fix_result" where
  "createErrorResult filename error metadata timestamp =
     \<lparr>fr_success = False,
      fr_filename = filename,
      fr_originalCode = None,
      fr_fixedCode = None,
      fr_timestamp = timestamp,
      fr_linesChanged = None,
      fr_error = Some (errorText error),
      fr_testOutput = md_testOutput metadata,
      fr_testError = md_testError metadata,
      fr_model = md_model metadata\<rparr>"

section \<open>bug-fixer.js: side effects\<close>

definition readFileContent :: "path \<Rightarrow> world \<Rightarrow> js_error + string" where
  "readFileContent filename w =
     (case files w filename of
        None \<Rightarrow> Inl (Error (''ENOENT: no such file or directory, open '' @ filename))
      | Some content \<Rightarrow> Inr content)"

definition writeFileContent :: "env \<Rightarrow> path \<Rightarrow> string \<Rightarrow> world \<Rightarrow> (js_error + unit) \<times> world" where
  "writeFileContent e filename content w =
     (case writeFileFault e w filename content of
        WriteOk \<Rightarrow>
          (Inr (), logEvent (EvWrite filename content) (w\<lparr>files := (files w)(filename \<mapsto> content)\<rparr>))
      | WriteFault message left \<Rightarrow>
          (Inl (Error message),
           logEvent (EvWrite filename content)
             (w\<lparr>files := (case left of None \<Rightarrow> files w | Some c \<Rightarrow> (files w)(filename \<mapsto> c))\<rparr>)))"

definition fileExists :: "path \<Rightarrow> world \<Rightarrow> bool" where
  "fileExists filename w = (files w filename \<noteq> None)"

record test_result =
  tr_success :: bool
  tr_output :: string
  tr_error :: "string option"

text \<open>
  \<open>runTests\<close> never throws: the error of a failing command becomes a result. A missing
  command makes \<open>execSync\<close> throw before anything runs, an error with neither \<open>stdout\<close> nor
  \<open>stderr\<close>.
\<close>

definition invalidCommand :: string where
  "invalidCommand = ''The command argument must be of type string. Received undefined''"

definition runTests :: "env \<Rightarrow> string option \<Rightarrow> world \<Rightarrow> test_result \<times> world" where
  "runTests e command w =
     (case command of
        None \<Rightarrow> (\<lparr>tr_success = False, tr_output = [], tr_error = Some invalidCommand\<rparr>, w)
      | Some cmd \<Rightarrow>
          (case execSync e w cmd of
             ExecOk output \<Rightarrow>
               (\<lparr>tr_success = True, tr_output = output, tr_error = None\<rparr>, logEvent (EvExec cmd) w)
           | ExecFail out err message \<Rightarrow>
               (\<lparr>tr_success = False,
                 tr_output = (case out of None \<Rightarrow> [] | Some s \<Rightarrow> s),
                 tr_error = Some (case err of
                                    None \<Rightarrow> message
                                  | Some s \<Rightarrow> if s = [] then message else s)\<rparr>,
                logEvent (EvExec cmd) w)))"

section \<open>bug-fixer.js: the model call\<close>

definition orZero :: "nat option \<Rightarrow> nat" where
  "orZero a = (case a of None \<Rightarrow> 0 | Some n \<Rightarrow> n)"

text \<open>
  The cost is tracked when the tracker is available and the model reported its usage; an
  error of the tracking call is caught and only logged.
\<close>

definition trackUsage :: "env \<Rightarrow> fix_config \<Rightarrow> usage option \<Rightarrow> world \<Rightarrow> world" where
  "trackUsage e config u w =
     (case u of
        None \<Rightarrow> w
      | Some us \<Rightarrow>
          if trackerAvailable e w
          then (let p = orZero (promptTokens us); c = orZero (completionTokens us);
                    w1 = logEvent (EvTrackCost ''bugFixer'' p c (fc_model config)) w
                in case trackCost e w ''bugFixer'' p c (fc_model config) of
                     Inl err \<Rightarrow> w1
                   | Inr u \<Rightarrow> w1)
          else w)"

definition analyzeAndFix ::
  "env \<Rightarrow> string \<Rightarrow> string \<Rightarrow> string \<Rightarrow> fix_config \<Rightarrow> world \<Rightarrow> (js_error + string) \<times> world" where
  "analyzeAndFix e code filename errorMessage config w =
     (case buildBugFixPrompt e w code filename errorMessage of
        Inl err \<Rightarrow> (Inl err, w)
      | Inr prompt \<Rightarrow>
          (let estimatedCost = estimateCost e (fc_model config) code (fc_maxTokens config);
               limitCheck = isWithinLimits e estimatedCost
           in if \<not> lim_allowed limitCheck
              then (Inl (Error (case orStr (lim_reason limitCheck) None of
                                  Some reason \<Rightarrow> reason
                                | None \<Rightarrow> ''Cost limit exceeded. Estimated: $'' @ toFixed4 e estimatedCost)),
                    w)
              else (let w1 = logEvent (EvGenerate prompt) w
                    in case generateText e w
                              \<lparr>gq_prompt = prompt, gq_model = fc_model config,
                               gq_maxTokens = fc_maxTokens config,
                               gq_temperature = fc_temperature config\<rparr> of
                         Inl err \<Rightarrow> (Inl err, w1)
                       | Inr response \<Rightarrow>
                           (Inr (extractCleanCode (gr_text response)),
                            trackUsage e config (gr_usage response) w1))))"

section \<open>bug-fixer.js: apply, test, roll back\<close>

record apply_result =
  ar_success :: bool
  ar_testOutput :: string
  ar_error :: "string option"

definition applyAndTest ::
  "env \<Rightarrow> path \<Rightarrow> string \<Rightarrow> string \<Rightarrow> fix_config \<Rightarrow> world \<Rightarrow> (js_error + apply_result) \<times> world" where
  "applyAndTest e filename originalCode fixedCode config w =
     (case writeFileContent e filename fixedCode w of
        (Inl err, w1) \<Rightarrow> (Inl err, w1)
      | (Inr u, w1) \<Rightarrow>
          (case runTests e (fc_testCommand config) w1 of
             (testResult, w2) \<Rightarrow>
               if tr_success testResult
               then (Inr \<lparr>ar_success = True, ar_testOutput = tr_output testResult, ar_error = None\<rparr>, w2)
               else (case writeFileContent e filename originalCode w2 of
                       (Inl err, w3) \<Rightarrow> (Inl err, w3)
                     | (Inr u, w3) \<Rightarrow>
                         (Inr \<lparr>ar_success = False, ar_testOutput = tr_output testResult,
                               ar_error = tr_error testResult\<rparr>, w3))))"

text \<open>
  The body of \<open>fixBug\<close>'s \<open>try\<close> block: \<open>Inl\<close> is a thrown error. The validation of
  a success result only logs a warning and is left out with the rest of the console output.
\<close>

definition fixBugTry ::
  "env \<Rightarrow> path \<Rightarrow> string \<Rightarrow> fix_options \<Rightarrow> world \<Rightarrow> (js_error + fix_result) \<times> world" where
  "fixBugTry e filename errorMessage options w =
     (case createFixConfig e options w of
        Inl err \<Rightarrow> (Inl err, w)
      | Inr config \<Rightarrow>
          if \<not> fileExists filename w
          then (Inl (Error (''File not found: '' @ filename)), w)
          else (case readFileContent filename w of
                  Inl err \<Rightarrow> (Inl err, w)
                | Inr originalCode \<Rightarrow>
                    (case analyzeAndFix e originalCode filename errorMessage config w of
                       (Inl err, w1) \<Rightarrow> (Inl err, w1)
                     | (Inr fixedCode, w1) \<Rightarrow>
                         (case applyAndTest e filename originalCode fixedCode config w1 of
                            (Inl err, w2) \<Rightarrow> (Inl err, w2)
                          | (Inr testResult, w2) \<Rightarrow>
                              if ar_success testResult
                              then (Inr (createSuccessResult originalCode fixedCode filename
                                           \<lparr>md_testOutput = Some (ar_testOutput testResult),
                                            md_testError = None,
                                            md_model = fc_model config\<rparr>
                                           (nowISO e w2)), w2)
                              else (Inr (createErrorResult filename
                                           (Error ''Tests failed after applying fix'')
                                           \<lparr>md_testOutput = Some (ar_testOutput testResult),
                                            md_testError = ar_error testResult,
                                            md_model = None\<rparr>
                                           (nowISO e w2)), w2)))))"

text \<open>\<open>fixBug\<close>: the \<open>try\<close> block under its \<open>catch\<close>, which turns every thrown error into a result.\<close>

definition fixBug ::
  "env \<Rightarrow> path \<Rightarrow> string \<Rightarrow> fix_options \<Rightarrow> world \<Rightarrow> (js_error + fix_result) \<times> world" where
  "fixBug e filename errorMessage options w =
     (case fixBugTry e filename errorMessage options w of
        (Inl error, w1) \<Rightarrow> (Inr (createErrorResult filename error noMetadata (nowISO e w1)), w1)
      | (Inr result, w1) \<Rightarrow> (Inr result, w1))"

section \<open>ci-bug-fixer.js: reading the test output\<close>

definition lowerAlpha :: string where
  "lowerAlpha = ''abcdefghijklmnopqrstuvwxyz''"

definition upperAlpha :: string where
  "upperAlpha = ''ABCDEFGHIJKLMNOPQRSTUVWXYZ''"

definition digits :: string where
  "digits = ''0123456789''"

text \<open>The classes \<open>\w\<close>, \<open>\d\<close>, \<open>[a-zA-Z0-9/_-]\<close>, \<open>[^)]\<close> and the dot (no line terminator).\<close>

definition isWordChar :: "char \<Rightarrow> bool" where
  "isWordChar c \<longleftrightarrow> c \<in> set (lowerAlpha @ upperAlpha @ digits @ ''_'')"

definition isDigit :: "char \<Rightarrow> bool" where
  "isDigit c \<longleftrightarrow> c \<in> set digits"

definition isPathChar :: "char \<Rightarrow> bool" where
  "isPathChar c \<longleftrightarrow> c \<in> set (lowerAlpha @ upperAlpha @ digits @ ''/_-'')"

definition notCloseParen :: "char \<Rightarrow> bool" where
  "notCloseParen c \<longleftrightarrow> c \<noteq> CHR '')''"

definition isDot :: "char \<Rightarrow> bool" where
  "isDot c \<longleftrightarrow> c \<noteq> nl \<and> c \<noteq> CHR 0x0D"

text \<open>The stack frame: \<open>at \w+.*\(([^)]+\.js):\d+:\d+\)\<close>.\<close>

definition stackFrame :: "atom list" where
  "stackFrame =
     lit ''at '' @ [Cls isWordChar QPlus, Cls isDot QStar] @ lit ''('' @
     [GOpen, Cls notCloseParen QPlus] @ lit ''.js'' @ [GClose] @
     lit '':'' @ [Cls isDigit QPlus] @ lit '':'' @ [Cls isDigit QPlus] @ lit '')''"

text \<open>The looser mention of a file: \<open>(?:at|in|from)\s+([a-zA-Z0-9/_-]+\.js)\<close>.\<close>

definition mentionedFile :: "atom list" where
  "mentionedFile =
     [Alts [''at'', ''in'', ''from''], Cls isWhiteSpace QPlus, GOpen, Cls isPathChar QPlus] @
     lit ''.js'' @ [GClose]"

lemma rmatch_length:
  "rmatch as inp r acc = Some (cap, rest) \<Longrightarrow> length rest \<le> length inp"
  by (induction as inp r acc arbitrary: cap rest rule: rmatch.induct)
     (auto split: option.splits if_splits, (fastforce+)?)

lemma rsearch_length:
  "rsearch as pre inp = Some (skipped, cap, rest) \<Longrightarrow> length rest \<le> length inp"
proof (induction inp arbitrary: pre)
  case Nil
  then show ?case by (auto split: option.splits dest: rmatch_length)
next
  case (Cons c cs)
  then show ?case by (fastforce split: option.splits dest: rmatch_length)
qed

text \<open>
  \<open>s.matchAll(re)\<close> with the \<open>g\<close> flag: the captures of the matches from left to right,
  each search starting where the match before it ended, and one character further after
  an empty match.
\<close>

function rmatchAll :: "atom list \<Rightarrow> string \<Rightarrow> string list" where
  "rmatchAll as inp =
     (case rsearch as [] inp of
        None \<Rightarrow> []
      | Some (skipped, cap, rest) \<Rightarrow>
          if length skipped + length rest < length inp
          then cap # rmatchAll as rest
          else (case rest of
                  [] \<Rightarrow> [cap]
                | c # cs \<Rightarrow> cap # rmatchAll as cs))"
  by pat_completeness auto
termination
proof (relation "measure (\<lambda>(as, inp). length inp)")
  show "wf (measure (\<lambda>(as, inp). length inp))" by simp
next
  fix as inp x2 skipped y cap rest
  assume "rsearch as [] inp = Some x2" "(skipped, y) = x2" "(cap, rest) = y"
         "length skipped + length rest < length inp"
  then show "((as, rest), (as, inp)) \<in> measure (\<lambda>(as, inp). length inp)" by simp
next
  fix as inp x2 skipped y cap rest c cs
  assume "rsearch as [] inp = Some x2" "(skipped, y) = x2" "(cap, rest) = y" "rest = c # cs"
  then have "rsearch as [] inp = Some (skipped, cap, c # cs)" by simp
  then have "length (c # cs) \<le> length inp" by (rule rsearch_length)
  then show "((as, cs), (as, inp)) \<in> measure (\<lambda>(as, inp). length inp)" by simp
qed

declare rmatchAll.simps [simp del]

record parsed_output =
  po_file :: string
  po_error :: string
  po_hasFailures :: bool

definition withDotSlash :: "string \<Rightarrow> string" where
  "withDotSlash file = (if startsWith file ''./'' then file else ''./'' @ file)"

definition parseTestOutput :: "string \<Rightarrow> parsed_output" where
  "parseTestOutput outputText =
     (let stackMatch = rsearch stackFrame [] outputText;
          sourceFile =
            (case stackMatch of
               None \<Rightarrow> ''./cart.js''
             | Some (skipped, matchedFile, rest) \<Rightarrow>
                 if matchedFile \<noteq> []
                 then (let isValid = (\<not> includesStr matchedFile ''.test.'' \<and>
                                      \<not> includesStr matchedFile ''node_modules'')
                       in if isValid then withDotSlash matchedFile else ''./cart.js'')
                 else ''./cart.js'')
      in \<lparr>po_file = sourceFile,
          po_error = ''Jest test failures:'' @ [nl, nl] @ outputText,
          po_hasFailures = (includesStr outputText ''FAIL'' \<or> includesStr outputText ''Error'')\<rparr>)"

text \<open>A JavaScript \<open>Set\<close> keeps its members in the order of their first insertion.\<close>

definition setAdd :: "'a list \<Rightarrow> 'a \<Rightarrow> 'a list" where
  "setAdd xs x = (if x \<in> set xs then xs else xs @ [x])"

fun addMentioned :: "world \<Rightarrow> string list \<Rightarrow> string list \<Rightarrow> string list" where
  "addMentioned w [] found = found"
| "addMentioned w (file # others) found =
     addMentioned w others
       (if \<not> includesStr file ''test'' \<and> \<not> includesStr file ''node_modules''
        then (let path = withDotSlash file
              in if fileExists path w then setAdd found path else found)
        else found)"

definition identifyFilesToFix :: "string \<Rightarrow> world \<Rightarrow> string list" where
  "identifyFilesToFix output w =
     (let parsed = parseTestOutput output;
          found = (if po_file parsed \<noteq> [] \<and> fileExists (po_file parsed) w
                   then setAdd [] (po_file parsed) else [])
      in addMentioned w (rmatchAll mentionedFile output) found)"

section \<open>ci-bug-fixer.js: configuration and results\<close>

text \<open>The options of a CI run; \<open>maxRetries\<close> is a count of rounds, a natural number.\<close>

record ci_options =
  co_testCommand :: "string option"
  co_maxRetries :: "nat option"
  co_autoCommit :: "bool option"
  co_autoPush :: "bool option"
  co_commitMessage :: "string option"
  co_model :: "string option"
  co_configType :: "string option"

record ci_config =
  cc_testCommand :: string
  cc_maxRetries :: nat
  cc_autoCommit :: bool
  cc_autoPush :: bool
  cc_commitMessage :: string
  cc_model :: string
  cc_configType :: string

text \<open>
  The default commit message of the source starts with an emoji, which lies outside the
  code units modelled here; the constant below is the message after it.
\<close>

definition defaultCommitMessage :: string where
  "defaultCommitMessage = ''Auto-fix: Resolve test failures''"

definition strOr :: "string option \<Rightarrow> string \<Rightarrow> string" where
  "strOr a d = (case a of None \<Rightarrow> d | Some s \<Rightarrow> if s = [] then d else s)"

definition natOr :: "nat option \<Rightarrow> nat \<Rightarrow> nat" where
  "natOr a d = (case a of None \<Rightarrow> d | Some n \<Rightarrow> if n = 0 then d else n)"

definition boolNullish :: "bool option \<Rightarrow> bool \<Rightarrow> bool" where
  "boolNullish a d = (case a of None \<Rightarrow> d | Some b \<Rightarrow> b)"

definition createCIConfig :: "ci_options \<Rightarrow> ci_config" where
  "createCIConfig options =
     \<lparr>cc_testCommand = strOr (co_testCommand options) ''npm test'',
      cc_maxRetries = natOr (co_maxRetries options) 3,
      cc_autoCommit = boolNullish (co_autoCommit options) True,
      cc_autoPush = boolNullish (co_autoPush options) False,
      cc_commitMessage = strOr (co_commitMessage options) defaultCommitMessage,
      cc_model = strOr (co_model options) ''gpt-4o-mini'',
      cc_configType = strOr (co_configType options) ''thorough''\<rparr>"

text \<open>
  The result of one CI round. The metadata is the keys \<open>runCIFix\<close> passes; \<open>committed\<close> and
  \<open>commitError\<close> are the keys it adds after a commit.
\<close>

record ci_metadata =
  cm_testsPassedInitially :: "bool option"
  cm_message :: "string option"
  cm_error :: "string option"
  cm_testOutput :: "string option"

record ci_result =
  totalAttempted :: nat
  successful :: nat
  failed :: nat
  ci_fixes :: "fix_result list"
  ci_timestamp :: string
  testsPassedInitially :: "bool option"
  ci_message :: "string option"
  ci_error :: "string option"
  ci_testOutput :: "string option"
  committed :: "bool option"
  commitError :: "string option"

definition createCIResult :: "fix_result list \<Rightarrow> ci_metadata \<Rightarrow> string \<Rightarrow> ci_result" where
  "createCIResult fixList metadata timestamp =
     (let succeeded = filter (\<lambda>f. fr_success f) fixList;
          failing = filter (\<lambda>f. \<not> fr_success f) fixList
      in \<lparr>totalAttempted = length fixList,
          successful = length succeeded,
          failed = length failing,
          ci_fixes = fixList,
          ci_timestamp = timestamp,
          testsPassedInitially = cm_testsPassedInitially metadata,
          ci_message = cm_message metadata,
          ci_error = cm_error metadata,
          ci_testOutput = cm_testOutput metadata,
          committed = None,
          commitError = None\<rparr>)"

section \<open>ci-bug-fixer.js: git\<close>

text \<open>A git step runs one or two shell commands and reports whether none of them threw.\<close>

definition execQuiet :: "env \<Rightarrow> string \<Rightarrow> world \<Rightarrow> bool \<times> world" where
  "execQuiet e cmd w =
     (case execSync e w cmd of
        ExecOk output \<Rightarrow> (True, logEvent (EvExec cmd) w)
      | ExecFail out err message \<Rightarrow> (False, logEvent (EvExec cmd) w))"

definition quoted :: "string \<Rightarrow> string" where
  "quoted s = [CHR 0x22] @ s @ [CHR 0x22]"

definition configureGit :: "env \<Rightarrow> string \<Rightarrow> string \<Rightarrow> world \<Rightarrow> bool \<times> world" where
  "configureGit e name email w =
     (case execQuiet e (''git config user.name '' @ quoted name) w of
        (ok1, w1) \<Rightarrow>
          if ok1 then execQuiet e (''git config user.email '' @ quoted email) w1
          else (False, w1))"

definition stageChanges :: "env \<Rightarrow> world \<Rightarrow> bool \<times> world" where
  "stageChanges e w = execQuiet e ''git add .'' w"

definition commitChanges :: "env \<Rightarrow> string \<Rightarrow> world \<Rightarrow> bool \<times> world" where
  "commitChanges e message w = execQuiet e (''git commit -m '' @ quoted message) w"

definition pushChanges :: "env \<Rightarrow> world \<Rightarrow> bool \<times> world" where
  "pushChanges e w = execQuiet e ''git push'' w"

record commit_result =
  cr_success :: bool
  cr_error :: "string option"
  cr_committed :: "bool option"
  cr_pushed :: "bool option"

definition commitFixes :: "env \<Rightarrow> string \<Rightarrow> bool \<Rightarrow> world \<Rightarrow> commit_result \<times> world" where
  "commitFixes e message shouldPush w =
     (case configureGit e ''Auto Bug Fixer'' ''action@github.com'' w of
        (gitConfig, w1) \<Rightarrow>
          (case stageChanges e w1 of
             (staged, w2) \<Rightarrow>
               if \<not> staged
               then (\<lparr>cr_success = False, cr_error = Some ''Failed to stage changes'',
                      cr_committed = None, cr_pushed = None\<rparr>, w2)
               else (case commitChanges e message w2 of
                       (didCommit, w3) \<Rightarrow>
                         if \<not> didCommit
                         then (\<lparr>cr_success = False, cr_error = Some ''Failed to commit changes'',
                                cr_committed = None, cr_pushed = None\<rparr>, w3)
                         else if shouldPush
                         then (case pushChanges e w3 of
                                 (pushed, w4) \<Rightarrow>
                                   if \<not> pushed
                                   then (\<lparr>cr_success = False,
                                          cr_error = Some ''Failed to push changes'',
                                          cr_committed = Some True, cr_pushed = None\<rparr>, w4)
                                   else (\<lparr>cr_success = True, cr_error = None,
                                          cr_committed = Some True,
                                          cr_pushed = Some shouldPush\<rparr>, w4))
                         else (\<lparr>cr_success = True, cr_error = None, cr_committed = Some True,
                                cr_pushed = Some shouldPush\<rparr>, w3))))"

section \<open>ci-bug-fixer.js: one round and the retries\<close>

text \<open>The \<open>for\<close> loop over the files to fix; an error thrown by \<open>fixBug\<close> would leave it.\<close>

fun fixEach ::
  "env \<Rightarrow> ci_config \<Rightarrow> string \<Rightarrow> string list \<Rightarrow> fix_result list \<Rightarrow> world \<Rightarrow>
     (js_error + fix_result list) \<times> world" where
  "fixEach e config testOutput [] fixList w = (Inr fixList, w)"
| "fixEach e config testOutput (file # rest) fixList w =
     (let errorContext = po_error (parseTestOutput testOutput)
      in case fixBug e file errorContext
                \<lparr>fo_configPath = None, fo_model = Some (cc_model config), fo_maxTokens = None,
                 fo_temperature = None, fo_maxRetries = None,
                 fo_testCommand = Some (cc_testCommand config),
                 fo_configType = Some (cc_configType config)\<rparr> w of
           (Inl err, w1) \<Rightarrow> (Inl err, w1)
         | (Inr fixResult, w1) \<Rightarrow> fixEach e config testOutput rest (fixList @ [fixResult]) w1)"

definition runCIFix :: "env \<Rightarrow> ci_options \<Rightarrow> world \<Rightarrow> (js_error + ci_result) \<times> world" where
  "runCIFix e options w =
     (let config = createCIConfig options
      in case runTests e (Some (cc_testCommand config)) w of
           (testResult, w1) \<Rightarrow>
             if tr_success testResult
             then (Inr (createCIResult []
                          \<lparr>cm_testsPassedInitially = Some True, cm_message = Some ''No fixes needed'',
                           cm_error = None, cm_testOutput = None\<rparr> (nowISO e w1)), w1)
             else (let testOutput = tr_output testResult @
                                    (case tr_error testResult of None \<Rightarrow> [] | Some s \<Rightarrow> s);
                       filesToFix = identifyFilesToFix testOutput w1
                   in if length filesToFix = 0
                      then (Inr (createCIResult []
                                   \<lparr>cm_testsPassedInitially = None, cm_message = None,
                                    cm_error = Some ''Could not identify files to fix'',
                                    cm_testOutput = Some testOutput\<rparr> (nowISO e w1)), w1)
                      else (case fixEach e config testOutput filesToFix [] w1 of
                              (Inl err, w2) \<Rightarrow> (Inl err, w2)
                            | (Inr fixList, w2) \<Rightarrow>
                                (let result = createCIResult fixList
                                       \<lparr>cm_testsPassedInitially = None, cm_message = None,
                                        cm_error = None, cm_testOutput = Some testOutput\<rparr>
                                       (nowISO e w2)
                                 in if cc_autoCommit config \<and> successful result > 0
                                    then (case commitFixes e (cc_commitMessage config)
                                                 (cc_autoPush config) w2 of
                                            (commitResult, w3) \<Rightarrow>
                                              (Inr (result\<lparr>committed := Some (cr_success commitResult),
                                                           commitError := cr_error commitResult\<rparr>),
                                               w3))
                                    else (Inr result, w2)))))"

text \<open>
  The result of the retries: the last round's result spread into a new object, with the
  two keys the retries add. \<open>rr_result\<close> is \<open>None\<close> when no round ran.
\<close>

record retry_result =
  rr_result :: "ci_result option"
  finalTestsPassed :: bool
  attempts :: nat

function retryLoop ::
  "env \<Rightarrow> ci_options \<Rightarrow> ci_config \<Rightarrow> nat \<Rightarrow> ci_result option \<Rightarrow> world \<Rightarrow>
     (js_error + retry_result) \<times> world" where
  "retryLoop e options config attempt lastResult w =
     (if attempt \<le> cc_maxRetries config
      then (case runCIFix e options w of
              (Inl err, w1) \<Rightarrow> (Inl err, w1)
            | (Inr result, w1) \<Rightarrow>
                (case runTests e (Some (cc_testCommand config)) w1 of
                   (testResult, w2) \<Rightarrow>
                     if tr_success testResult
                     then (Inr \<lparr>rr_result = Some result, finalTestsPassed = True,
                                attempts = attempt\<rparr>, w2)
                     else retryLoop e options config (attempt + 1) (Some result) w2))
      else (Inr \<lparr>rr_result = lastResult, finalTestsPassed = False,
                 attempts = cc_maxRetries config\<rparr>, w))"
  by pat_completeness auto
termination
  by (relation "measure (\<lambda>(e, options, config, attempt, lastResult, w).
                  Suc (cc_maxRetries config) - attempt)") auto

declare retryLoop.simps [simp del]

definition runCIFixWithRetries ::
  "env \<Rightarrow> ci_options \<Rightarrow> world \<Rightarrow> (js_error + retry_result) \<times> world" where
  "runCIFixWithRetries e options w = retryLoop e options (createCIConfig options) 1 None w"

section \<open>Observations used to state the properties\<close>

text \<open>
  Whether the verification run passes after \<open>fixedCode\<close> has been written: the test
  result that \<open>applyAndTest\<close> reads.
\<close>

definition verificationPassed :: "env \<Rightarrow> fix_config \<Rightarrow> path \<Rightarrow> string \<Rightarrow> world \<Rightarrow> bool" where
  "verificationPassed e config filename fixedCode w =
     tr_success (fst (runTests e (fc_testCommand config)
                        (snd (writeFileContent e filename fixedCode w))))"

text \<open>The state in which \<open>applyAndTest\<close> writes the original back: after the test run.\<close>

definition worldAtRollback :: "env \<Rightarrow> fix_config \<Rightarrow> path \<Rightarrow> string \<Rightarrow> world \<Rightarrow> world" where
  "worldAtRollback e config filename fixedCode w =
     snd (runTests e (fc_testCommand config) (snd (writeFileContent e filename fixedCode w)))"

text \<open>The cost-tracking calls recorded in a history.\<close>

fun isTrackCost :: "event \<Rightarrow> bool" where
  "isTrackCost (EvTrackCost agent p c m) = True"
| "isTrackCost ev = False"

definition trackCostCalls :: "event list \<Rightarrow> event list" where
  "trackCostCalls tr = filter isTrackCost tr"

text \<open>
  One round of the retries: \<open>runCIFix\<close> followed by the test run that decides whether to
  stop. \<open>afterRounds k\<close> is the state after \<open>k\<close> rounds in a row, \<open>roundResult n\<close> and
  \<open>roundPasses n\<close> are the result of round \<open>n\<close> and the outcome of the test run after it
  (rounds are counted from 1, each starting where the one before ended).
\<close>

definition ciRound :: "env \<Rightarrow> ci_options \<Rightarrow> world \<Rightarrow> (js_error + ci_result) \<times> bool \<times> world" where
  "ciRound e options w =
     (case runCIFix e options w of
        (r, w1) \<Rightarrow>
          (case runTests e (Some (cc_testCommand (createCIConfig options))) w1 of
             (t, w2) \<Rightarrow> (r, tr_success t, w2)))"

fun afterRounds :: "env \<Rightarrow> ci_options \<Rightarrow> nat \<Rightarrow> world \<Rightarrow> world" where
  "afterRounds e options 0 w = w"
| "afterRounds e options (Suc k) w = snd (snd (ciRound e options (afterRounds e options k w)))"

definition roundResult :: "env \<Rightarrow> ci_options \<Rightarrow> world \<Rightarrow> nat \<Rightarrow> js_error + ci_result" where
  "roundResult e options w n = fst (ciRound e options (afterRounds e options (n - 1) w))"

definition roundPasses :: "env \<Rightarrow> ci_options \<Rightarrow> world \<Rightarrow> nat \<Rightarrow> bool" where
  "roundPasses e options w n = fst (snd (ciRound e options (afterRounds e options (n - 1) w)))"

text \<open>
  What \<open>identifyFilesToFix\<close> reads in a test output: the file captured by the first match
  of the stack frame pattern, and the paths of the looser mentions that pass its filter and
  exist on disk.
\<close>

definition firstFrameFile :: "string \<Rightarrow> string option" where
  "firstFrameFile output =
     (case rsearch stackFrame [] output of
        None \<Rightarrow> None
      | Some (skipped, matchedFile, rest) \<Rightarrow> Some matchedFile)"

definition existingMentions :: "string \<Rightarrow> world \<Rightarrow> string list" where
  "existingMentions output w =
     filter (\<lambda>path. fileExists path w)
       (map withDotSlash
          (filter (\<lambda>file. \<not> includesStr file ''test'' \<and> \<not> includesStr file ''node_modules'')
             (rmatchAll mentionedFile output)))"

section \<open>Example environments\<close>

text \<open>
  A working tree with one file, and collaborators that all succeed: the tests pass, no
  write faults, the model answers with a fenced block and reports its usage.
\<close>

definition cartWorld :: world where
  "cartWorld = \<lparr>files = [''./cart.js'' \<mapsto> ''bug''], trace = []\<rparr>"

definition emptyWorld :: world where
  "emptyWorld = \<lparr>files = Map.empty, trace = []\<rparr>"

definition timestamp0 :: string where
  "timestamp0 = ''2025-01-01T00:00:00.000Z''"

definition baseEnv :: env where
  "baseEnv =
     \<lparr>execSync = (\<lambda>w cmd. ExecOk []),
      writeFileFault = (\<lambda>w p c. WriteOk),
      generateText =
        (\<lambda>w q. Inr \<lparr>gr_text = fence @ ''js'' @ [nl] @ ''fix'' @ [nl] @ fence,
                     gr_usage = Some \<lparr>promptTokens = Some 100, completionTokens = Some 50\<rparr>\<rparr>),
      getConfig =
        (\<lambda>w p. Inr \<lparr>lc_model = Some ''gpt-4o-mini'', lc_maxTokens = Some 2000,
                     lc_temperature = None, lc_maxRetries = None,
                     lc_testCommand = Some ''npm test''\<rparr>),
      buildBugFixPrompt = (\<lambda>w code filename errorMessage. Inr ''prompt''),
      estimateCost = (\<lambda>m code t. 0),
      isWithinLimits = (\<lambda>c. \<lparr>lim_allowed = True, lim_reason = None\<rparr>),
      toFixed4 = (\<lambda>c. ''0.0000''),
      trackerAvailable = (\<lambda>w. True),
      trackCost = (\<lambda>w agent p c m. Inr ()),
      nowISO = (\<lambda>w. timestamp0)\<rparr>"

definition noOptions :: fix_options where
  "noOptions =
     \<lparr>fo_configPath = None, fo_model = None, fo_maxTokens = None, fo_temperature = None,
      fo_maxRetries = None, fo_testCommand = None, fo_configType = None\<rparr>"

text \<open>The configuration \<open>createFixConfig\<close> resolves in the example environments.\<close>

definition baseConfig :: fix_config where
  "baseConfig =
     \<lparr>fc_model = Some ''gpt-4o-mini'', fc_maxTokens = Some 2000, fc_temperature = None,
      fc_maxRetries = None, fc_testCommand = Some ''npm test''\<rparr>"

text \<open>A test command that always fails, and a file store that faults on the write that
  restores the original content.\<close>

definition failingTests :: "world \<Rightarrow> string \<Rightarrow> exec_outcome" where
  "failingTests w cmd = ExecFail (Some ''FAIL'') None ''Command failed''"

definition rollbackFault :: "world \<Rightarrow> path \<Rightarrow> string \<Rightarrow> write_outcome" where
  "rollbackFault w p c =
     (if c = ''bug'' then WriteFault ''EIO: i/o error, write'' None else WriteOk)"

definition failingEnv :: env where
  "failingEnv = baseEnv\<lparr>execSync := failingTests\<rparr>"

definition rollbackFaultEnv :: env where
  "rollbackFaultEnv = baseEnv\<lparr>execSync := failingTests, writeFileFault := rollbackFault\<rparr>"

text \<open>A model whose answer is an empty fenced block, under tests that pass.\<close>

definition emptyAnswerEnv :: env where
  "emptyAnswerEnv =
     baseEnv\<lparr>generateText :=
       (\<lambda>w q. Inr \<lparr>gr_text = fence @ ''js'' @ [nl] @ fence,
                    gr_usage = Some \<lparr>promptTokens = Some 100, completionTokens = Some 50\<rparr>\<rparr>)\<rparr>"


definition overBudgetEnv :: env where
  "overBudgetEnv =
     baseEnv\<lparr>isWithinLimits := (\<lambda>c. \<lparr>lim_allowed = False, lim_reason = Some ''Daily limit exceeded''\<rparr>)\<rparr>"

definition modelDownEnv :: env where
  "modelDownEnv = baseEnv\<lparr>generateText := (\<lambda>w q. Inl (Error ''model unavailable''))\<rparr>"

text \<open>A working tree with two files, and a test output with two stack frames.\<close>

definition twoFileWorld :: world where
  "twoFileWorld = \<lparr>files = [''./cart.js'' \<mapsto> ''bug'', ''./util.js'' \<mapsto> ''helper''], trace = []\<rparr>"

definition twoFrameOutput :: string where
  "twoFrameOutput = ''at bar (./util.js:5:1)'' @ [nl] @ ''at foo (./cart.js:10:3)''"

text \<open>Tests that fail until three commands have been run, and pass from then on.\<close>

definition flakyTests :: "world \<Rightarrow> string \<Rightarrow> exec_outcome" where
  "flakyTests w cmd =
     (if length (trace w) < 3 then ExecFail (Some ''FAIL'') None ''Command failed'' else ExecOk [])"

definition flakyEnv :: env where
  "flakyEnv = baseEnv\<lparr>execSync := flakyTests\<rparr>"

definition noCIOptions :: ci_options where
  "noCIOptions =
     \<lparr>co_testCommand = None, co_maxRetries = None, co_autoCommit = None, co_autoPush = None,
      co_commitMessage = None, co_model = None, co_configType = None\<rparr>"

definition twoRetries :: ci_options where
  "twoRetries = noCIOptions\<lparr>co_maxRetries := Some 2\<rparr>"

text \<open>
  Test outputs as a test runner prints them: a failing suite whose first frame is in
  \<open>./cart.js\<close>, one whose only frame is in \<open>./util.js\<close>, and one line that names a second
  file after the frame.
\<close>

definition jestOutput :: string where
  "jestOutput =
     ''FAIL ./cart.test.js'' @ [nl] @
     ''TypeError: total is not a function'' @ [nl] @
     ''    at foo (./cart.js:10:3)'' @ [nl] @
     ''    at run (./cart.test.js:7:12)'' @ [nl] @
     ''imported from cart.js''"

definition utilOutput :: string where
  "utilOutput = ''Error: boom'' @ [nl] @ ''    at bar (./util.js:5:1)''"

definition mentionOutput :: string where
  "mentionOutput = ''at foo (./cart.js:10:3) in util.js''"

section \<open>Normalising the model's answer\<close>

lemma dropWhile_rev_dropWhile:
  assumes "xs \<noteq> [] \<Longrightarrow> \<not> P (hd xs)"
  shows "dropWhile P (rev (dropWhile P (rev xs))) = rev (dropWhile P (rev xs))"
proof -
  define z where "z = rev (dropWhile P (rev xs))"
  have "xs = rev (takeWhile P (rev xs) @ dropWhile P (rev xs))" by simp
  also have "\<dots> = z @ rev (takeWhile P (rev xs))" by (simp only: rev_append z_def)
  finally have xs: "xs = z @ rev (takeWhile P (rev xs))" .
  show ?thesis
  proof (cases z)
    case Nil
    then have "rev (dropWhile P (rev xs)) = []" by (simp only: z_def)
    then show ?thesis by (simp only: dropWhile.simps)
  next
    case (Cons a zs)
    with xs obtain t where "xs = a # t" by (cases xs) auto
    with assms have "\<not> P a" by simp
    with Cons have "dropWhile P z = z" by simp
    then show ?thesis by (simp only: z_def)
  qed
qed

lemma trimStart_trim: "trimStart (trim s) = trim s"
  unfolding trim_def trimStart_def trimEnd_def
  by (rule dropWhile_rev_dropWhile) (rule hd_dropWhile)

lemma trimEnd_trimEnd: "trimEnd (trimEnd s) = trimEnd s"
  by (simp add: trimEnd_def)

lemma trim_trim: "trim (trim s) = trim s"
  using trimStart_trim[of s] trimEnd_trimEnd
  by (simp add: trim_def)

lemma extractCleanCode_trimmed: "trim (extractCleanCode s) = extractCleanCode s"
  by (simp add: extractCleanCode_def Let_def trim_trim)

lemma extractCleanCode_unfenced:
  assumes "trim t = t" and "\<not> startsWith t fence"
  shows "extractCleanCode t = t"
  using assms by (simp add: extractCleanCode_def Let_def)

lemma extractCleanCode_fenced_block:
  "extractCleanCode (fence @ ''javascript'' @ [nl] @ ''code'' @ [nl] @ fence) = ''code''"
  by code_simp

lemma extractCleanCode_double_fence:
  "extractCleanCode (fence @ fence @ ''a'') = fence @ ''a''"
  by code_simp

lemma extractCleanCode_single_fence:
  "extractCleanCode (fence @ ''a'') = ''a''"
  by code_simp

text \<open>
  C5, as the code has it. The normalisation removes one enclosing fence. It is idempotent
  on every answer whose normal form does not itself start with a fence marker, and a text
  that is already trimmed and starts with no fence is returned as it is. The answer made of
  the line of three backquotes and \<open>javascript\<close>, the line \<open>code\<close> and the line of three
  backquotes is normalised to exactly \<open>code\<close>.
\<close>

theorem extractCleanCode_idempotent_when_unfenced:
  "(\<not> startsWith (extractCleanCode s) fence \<longrightarrow>
      extractCleanCode (extractCleanCode s) = extractCleanCode s) \<and>
   (trim t = t \<and> \<not> startsWith t fence \<longrightarrow> extractCleanCode t = t) \<and>
   extractCleanCode (fence @ ''javascript'' @ [nl] @ ''code'' @ [nl] @ fence) = ''code''"
proof (intro conjI impI)
  assume "\<not> startsWith (extractCleanCode s) fence"
  then show "extractCleanCode (extractCleanCode s) = extractCleanCode s"
    by (rule extractCleanCode_unfenced[OF extractCleanCode_trimmed])
next
  assume "trim t = t \<and> \<not> startsWith t fence"
  then show "extractCleanCode t = t" by (simp add: extractCleanCode_unfenced)
next
  show "extractCleanCode (fence @ ''javascript'' @ [nl] @ ''code'' @ [nl] @ fence) = ''code''"
    by (rule extractCleanCode_fenced_block)
qed

theorem extractCleanCode_idempotent_witness:
  "\<not> startsWith (extractCleanCode (fence @ ''a'')) fence \<and>
   extractCleanCode (extractCleanCode (fence @ ''a'')) = extractCleanCode (fence @ ''a'') \<and>
   trim ''a'' = ''a'' \<and> \<not> startsWith ''a'' fence \<and> extractCleanCode ''a'' = ''a''"
proof -
  have a: "\<not> startsWith (extractCleanCode (fence @ ''a'')) fence"
    by (simp only: extractCleanCode_single_fence) (simp add: startsWith_def fence_def)
  have b: "trim ''a'' = ''a''" by code_simp
  have c: "\<not> startsWith ''a'' fence" by (simp add: startsWith_def fence_def)
  show ?thesis
    using a b c extractCleanCode_idempotent_when_unfenced[of "fence @ ''a''" "''a''"] by blast
qed

text \<open>
  C5 as the spec states it fails: an answer that opens with two fence markers keeps one of
  them after the first normalisation and loses it in the second.
\<close>

theorem extractCleanCode_not_idempotent:
  "extractCleanCode (extractCleanCode (fence @ fence @ ''a'')) \<noteq>
   extractCleanCode (fence @ fence @ ''a'')"
  by (simp only: extractCleanCode_double_fence extractCleanCode_single_fence) (simp add: fence_def)

section \<open>Counting changed lines\<close>

lemma splitLines_nonempty: "splitLines s \<noteq> []"
  by (induction s) (auto split: list.splits)

lemma joinLines_splitLines: "joinLines (splitLines s) = s"
proof (induction s)
  case Nil
  then show ?case by simp
next
  case (Cons c cs)
  then show ?case
    using splitLines_nonempty[of cs]
    by (cases "splitLines cs"; cases "tl (splitLines cs)") auto
qed

lemma splitLines_inj: "splitLines a = splitLines b \<longleftrightarrow> a = b"
  by (metis joinLines_splitLines)

lemma countLoop_filter:
  "countLoop ol fl m i ch = ch + length (filter (\<lambda>j. jsIndex ol j \<noteq> jsIndex fl j) [i..<m])"
proof (induction ol fl m i ch rule: countLoop.induct)
  case (1 ol fl m i ch)
  show ?case
  proof (cases "i < m")
    case True
    then show ?thesis
      using 1 by (subst countLoop.simps) (simp add: upt_conv_Cons)
  next
    case False
    then show ?thesis by (subst countLoop.simps) simp
  qed
qed

lemma jsIndex_eq_iff:
  "(\<forall>j < max (length xs) (length ys). jsIndex xs j = jsIndex ys j) \<longleftrightarrow> xs = ys"
proof
  assume h: "\<forall>j < max (length xs) (length ys). jsIndex xs j = jsIndex ys j"
  have len: "length xs = length ys"
  proof (rule ccontr)
    assume "length xs \<noteq> length ys"
    then consider "length xs < length ys" | "length ys < length xs" by linarith
    then show False
    proof cases
      case 1
      with h have "jsIndex xs (length xs) = jsIndex ys (length xs)" by simp
      with 1 show False by (simp add: jsIndex_def)
    next
      case 2
      with h have "jsIndex xs (length ys) = jsIndex ys (length ys)" by simp
      with 2 show False by (simp add: jsIndex_def)
    qed
  qed
  show "xs = ys"
  proof (rule nth_equalityI[OF len])
    fix i assume "i < length xs"
    with h len have "jsIndex xs i = jsIndex ys i" by simp
    with \<open>i < length xs\<close> len show "xs ! i = ys ! i" by (simp add: jsIndex_def)
  qed
next
  assume "xs = ys"
  then show "\<forall>j < max (length xs) (length ys). jsIndex xs j = jsIndex ys j" by simp
qed

lemma filter_upt_empty:
  "filter (\<lambda>j. f j \<noteq> g j) [0..<m] = [] \<longleftrightarrow> (\<forall>j < m. f j = g j)"
  by (auto simp: filter_empty_conv)

lemma countChangedLines_zero: "countChangedLines a b = 0 \<longleftrightarrow> a = b"
proof -
  let ?ol = "splitLines a" and ?fl = "splitLines b"
  let ?m = "max (length ?ol) (length ?fl)"
  have "countChangedLines a b = 0 \<longleftrightarrow> filter (\<lambda>j. jsIndex ?ol j \<noteq> jsIndex ?fl j) [0..<?m] = []"
    by (simp add: countChangedLines_def Let_def countLoop_filter)
  also have "\<dots> \<longleftrightarrow> (\<forall>j < ?m. jsIndex ?ol j = jsIndex ?fl j)"
    by (rule filter_upt_empty)
  also have "\<dots> \<longleftrightarrow> ?ol = ?fl" by (rule jsIndex_eq_iff)
  also have "\<dots> \<longleftrightarrow> a = b" by (rule splitLines_inj)
  finally show ?thesis .
qed

text \<open>
  C10. \<open>countChangedLines\<close> is zero exactly on equal strings, so the \<open>linesChanged\<close> of a
  success result is zero exactly when the applied code is the original, character for
  character.
\<close>

theorem countChangedLines_zero_iff_equal:
  "(countChangedLines a b = 0) = (a = b) \<and>
   (fr_linesChanged (createSuccessResult original fixed filename metadata timestamp) = Some 0)
     = (fixed = original)"
proof
  show "(countChangedLines a b = 0) = (a = b)" by (rule countChangedLines_zero)
next
  have "fr_linesChanged (createSuccessResult original fixed filename metadata timestamp) =
        Some (countChangedLines original fixed)"
    by (simp add: createSuccessResult_def)
  moreover have "(countChangedLines original fixed = 0) = (original = fixed)"
    by (rule countChangedLines_zero)
  ultimately show
    "(fr_linesChanged (createSuccessResult original fixed filename metadata timestamp) = Some 0)
       = (fixed = original)"
    by (simp only: option.inject) (rule eq_commute)
qed

section \<open>The cost tracker\<close>

text \<open>
  C4. \<open>canAfford\<close> first applies the lazy roll-over: on a new day the counters are zero
  and the date is today's. It then allows the cost exactly when the cost is within the
  per-fix limit and the day's spend plus the cost is within the daily limit, the sum and
  the two comparisons being the runtime's own.
\<close>

theorem canAfford_allowed_iff:
  "snd (canAfford ops today estimatedCost t) = checkAndResetDaily ops today t \<and>
   dailySpend (checkAndResetDaily ops today t) =
     (if today = lastReset t then dailySpend t else num_lit ops 0) \<and>
   fixCount (checkAndResetDaily ops today t) =
     (if today = lastReset t then fixCount t else num_lit ops 0) \<and>
   lastReset (checkAndResetDaily ops today t) = today \<and>
   dailyLimit (checkAndResetDaily ops today t) = dailyLimit t \<and>
   perFixLimit (checkAndResetDaily ops today t) = perFixLimit t \<and>
   ac_allowed (fst (canAfford ops today estimatedCost t)) =
     (num_le ops estimatedCost (perFixLimit t) \<and>
      num_le ops (num_add ops (dailySpend (checkAndResetDaily ops today t)) estimatedCost)
        (dailyLimit t))"
  by (auto simp: canAfford_def checkAndResetDaily_def Let_def)

section \<open>The result of a CI round\<close>

text \<open>C7. The counts of a CI result add up: every fix is counted as successful or as failed.\<close>

theorem createCIResult_counts:
  "successful (createCIResult fixList metadata timestamp) +
   failed (createCIResult fixList metadata timestamp) =
   totalAttempted (createCIResult fixList metadata timestamp)"
  by (simp add: createCIResult_def Let_def sum_length_filter_compl)

section \<open>The fix engine: what a step does to the working tree\<close>

lemma logEvent_files [simp]: "files (logEvent ev w) = files w"
  by (simp add: logEvent_def)

lemma logEvent_trace [simp]: "trace (logEvent ev w) = trace w @ [ev]"
  by (simp add: logEvent_def)

lemma runTests_files [simp]: "files (snd (runTests e cmd w)) = files w"
  by (simp add: runTests_def split: option.splits exec_outcome.splits)

lemma trackUsage_files [simp]: "files (trackUsage e cfg u w) = files w"
  by (simp add: trackUsage_def Let_def split: option.splits sum.splits)

lemma analyzeAndFix_files [simp]: "files (snd (analyzeAndFix e code f m cfg w)) = files w"
  by (simp add: analyzeAndFix_def Let_def split: sum.splits)

lemma writeFileContent_ok:
  "writeFileFault e w f c = WriteOk \<Longrightarrow>
   writeFileContent e f c w = (Inr (), logEvent (EvWrite f c) (w\<lparr>files := (files w)(f \<mapsto> c)\<rparr>))"
  by (simp add: writeFileContent_def)

lemma writeFileContent_fault:
  "writeFileFault e w f c = WriteFault msg left \<Longrightarrow>
   writeFileContent e f c w =
     (Inl (Error msg),
      logEvent (EvWrite f c)
        (w\<lparr>files := (case left of None \<Rightarrow> files w | Some d \<Rightarrow> (files w)(f \<mapsto> d))\<rparr>))"
  by (simp add: writeFileContent_def)

lemma writeFileContent_trace:
  "trace (snd (writeFileContent e f c w)) = trace w @ [EvWrite f c]"
  by (simp add: writeFileContent_def split: write_outcome.splits)

lemma analyzeAndFix_normalised:
  assumes "analyzeAndFix e code f m cfg w = (Inr fixed, w1)"
  shows "\<exists>q response. generateText e w q = Inr response \<and> fixed = extractCleanCode (gr_text response)"
  using assms
  by (auto simp: analyzeAndFix_def Let_def split: sum.splits if_splits)

section \<open>The fix engine: the outcomes of an attempt\<close>

lemma fixBug_of_try:
  "fixBug e f m opts w =
     (case fixBugTry e f m opts w of
        (Inl err, w1) \<Rightarrow> (Inr (createErrorResult f err noMetadata (nowISO e w1)), w1)
      | (Inr res, w1) \<Rightarrow> (Inr res, w1))"
  by (simp add: fixBug_def)

lemma fixBug_returns: "\<exists>res w'. fixBug e f m opts w = (Inr res, w')"
  by (cases "fixBugTry e f m opts w") (auto simp: fixBug_def split: sum.splits)

lemma fixBugTry_config_error:
  "createFixConfig e opts w = Inl err \<Longrightarrow> fixBugTry e f m opts w = (Inl err, w)"
  by (simp add: fixBugTry_def)

lemma fixBugTry_missing:
  "createFixConfig e opts w = Inr cfg \<Longrightarrow> \<not> fileExists f w \<Longrightarrow>
   fixBugTry e f m opts w = (Inl (Error (''File not found: '' @ f)), w)"
  by (simp add: fixBugTry_def)

lemma fixBugTry_proposal_error:
  "createFixConfig e opts w = Inr cfg \<Longrightarrow> files w f = Some orig \<Longrightarrow>
   analyzeAndFix e orig f m cfg w = (Inl err, w1) \<Longrightarrow>
   fixBugTry e f m opts w = (Inl err, w1)"
  by (simp add: fixBugTry_def fileExists_def readFileContent_def)

lemma fixBugTry_applied:
  "createFixConfig e opts w = Inr cfg \<Longrightarrow> files w f = Some orig \<Longrightarrow>
   analyzeAndFix e orig f m cfg w = (Inr fixed, w1) \<Longrightarrow>
   fixBugTry e f m opts w =
     (case applyAndTest e f orig fixed cfg w1 of
        (Inl err, w2) \<Rightarrow> (Inl err, w2)
      | (Inr testResult, w2) \<Rightarrow>
          if ar_success testResult
          then (Inr (createSuccessResult orig fixed f
                       \<lparr>md_testOutput = Some (ar_testOutput testResult), md_testError = None,
                        md_model = fc_model cfg\<rparr> (nowISO e w2)), w2)
          else (Inr (createErrorResult f (Error ''Tests failed after applying fix'')
                       \<lparr>md_testOutput = Some (ar_testOutput testResult),
                        md_testError = ar_error testResult, md_model = None\<rparr> (nowISO e w2)), w2))"
  by (simp add: fixBugTry_def fileExists_def readFileContent_def)

text \<open>The three ways \<open>applyAndTest\<close> ends once the patch is on disk.\<close>

lemma applyAndTest_passed:
  assumes "writeFileFault e w1 f fixed = WriteOk"
      and "verificationPassed e cfg f fixed w1"
  shows "\<exists>out w2. applyAndTest e f orig fixed cfg w1 =
           (Inr \<lparr>ar_success = True, ar_testOutput = out, ar_error = None\<rparr>, w2) \<and>
         files w2 = (files w1)(f \<mapsto> fixed)"
proof -
  let ?wa = "logEvent (EvWrite f fixed) (w1\<lparr>files := (files w1)(f \<mapsto> fixed)\<rparr>)"
  have wr: "writeFileContent e f fixed w1 = (Inr (), ?wa)"
    using assms(1) by (rule writeFileContent_ok)
  obtain t w2 where rt: "runTests e (fc_testCommand cfg) ?wa = (t, w2)"
    by (cases "runTests e (fc_testCommand cfg) ?wa")
  have "tr_success t" using assms(2) wr rt by (simp add: verificationPassed_def)
  moreover have "files w2 = files ?wa" using runTests_files[of e "fc_testCommand cfg" ?wa] rt by simp
  ultimately show ?thesis using wr rt by (simp add: applyAndTest_def)
qed

lemma applyAndTest_rolled_back:
  assumes "writeFileFault e w1 f fixed = WriteOk"
      and "\<not> verificationPassed e cfg f fixed w1"
      and "writeFileFault e (worldAtRollback e cfg f fixed w1) f orig = WriteOk"
  shows "\<exists>out err w2. applyAndTest e f orig fixed cfg w1 =
           (Inr \<lparr>ar_success = False, ar_testOutput = out, ar_error = err\<rparr>, w2) \<and>
         files w2 = (files w1)(f \<mapsto> orig) \<and> last (trace w2) = EvWrite f orig"
proof -
  let ?wa = "logEvent (EvWrite f fixed) (w1\<lparr>files := (files w1)(f \<mapsto> fixed)\<rparr>)"
  have wr: "writeFileContent e f fixed w1 = (Inr (), ?wa)"
    using assms(1) by (rule writeFileContent_ok)
  obtain t w2 where rt: "runTests e (fc_testCommand cfg) ?wa = (t, w2)"
    by (cases "runTests e (fc_testCommand cfg) ?wa")
  have nt: "\<not> tr_success t" using assms(2) wr rt by (simp add: verificationPassed_def)
  have fw2: "files w2 = files ?wa" using runTests_files[of e "fc_testCommand cfg" ?wa] rt by simp
  have "writeFileFault e w2 f orig = WriteOk"
    using assms(3) wr rt by (simp add: worldAtRollback_def)
  then have wb: "writeFileContent e f orig w2 =
                   (Inr (), logEvent (EvWrite f orig) (w2\<lparr>files := (files w2)(f \<mapsto> orig)\<rparr>))"
    by (rule writeFileContent_ok)
  show ?thesis using wr rt nt wb fw2 by (simp add: applyAndTest_def)
qed

lemma applyAndTest_rollback_fault:
  assumes "writeFileFault e w1 f fixed = WriteOk"
      and "\<not> verificationPassed e cfg f fixed w1"
      and "writeFileFault e (worldAtRollback e cfg f fixed w1) f orig = WriteFault msg left"
  shows "\<exists>w2. applyAndTest e f orig fixed cfg w1 = (Inl (Error msg), w2) \<and>
         files w2 = (case left of None \<Rightarrow> (files w1)(f \<mapsto> fixed) | Some d \<Rightarrow> (files w1)(f \<mapsto> d))"
proof -
  let ?wa = "logEvent (EvWrite f fixed) (w1\<lparr>files := (files w1)(f \<mapsto> fixed)\<rparr>)"
  have wr: "writeFileContent e f fixed w1 = (Inr (), ?wa)"
    using assms(1) by (rule writeFileContent_ok)
  obtain t w2 where rt: "runTests e (fc_testCommand cfg) ?wa = (t, w2)"
    by (cases "runTests e (fc_testCommand cfg) ?wa")
  have nt: "\<not> tr_success t" using assms(2) wr rt by (simp add: verificationPassed_def)
  have fw2: "files w2 = files ?wa" using runTests_files[of e "fc_testCommand cfg" ?wa] rt by simp
  have "writeFileFault e w2 f orig = WriteFault msg left"
    using assms(3) wr rt by (simp add: worldAtRollback_def)
  then have wb: "writeFileContent e f orig w2 =
     (Inl (Error msg),
      logEvent (EvWrite f orig)
        (w2\<lparr>files := (case left of None \<Rightarrow> files w2 | Some d \<Rightarrow> (files w2)(f \<mapsto> d))\<rparr>))"
    by (rule writeFileContent_fault)
  show ?thesis using wr rt nt wb fw2 by (simp add: applyAndTest_def split: option.splits)
qed

lemma fixBug_after_proposal:
  assumes cfg: "createFixConfig e opts w = Inr cfg" and ex: "files w f = Some orig"
      and prp: "analyzeAndFix e orig f m cfg w = (Inr fixed, w1)"
      and w1ok: "writeFileFault e w1 f fixed = WriteOk"
      and w2ok: "writeFileFault e (worldAtRollback e cfg f fixed w1) f orig = WriteOk"
  shows "\<exists>res w'. fixBug e f m opts w = (Inr res, w') \<and>
          (if verificationPassed e cfg f fixed w1
           then fr_success res \<and> fr_fixedCode res = Some fixed \<and> fr_originalCode res = Some orig \<and>
                fr_linesChanged res = Some (countChangedLines orig fixed) \<and>
                files w' = (files w)(f \<mapsto> fixed)
           else \<not> fr_success res \<and> fr_error res = Some ''Tests failed after applying fix'' \<and>
                files w' = files w \<and> last (trace w') = EvWrite f orig)"
proof -
  have fw1: "files w1 = files w"
    using analyzeAndFix_files[of e orig f m cfg w] prp by simp
  note tr = fixBugTry_applied[OF cfg ex prp]
  show ?thesis
  proof (cases "verificationPassed e cfg f fixed w1")
    case True
    from applyAndTest_passed[OF w1ok True, of orig] obtain out w2 where
      a: "applyAndTest e f orig fixed cfg w1 =
            (Inr \<lparr>ar_success = True, ar_testOutput = out, ar_error = None\<rparr>, w2)"
      and f2: "files w2 = (files w1)(f \<mapsto> fixed)" by blast
    show ?thesis
      using True tr a f2 fw1 by (simp add: fixBug_of_try createSuccessResult_def)
  next
    case False
    from applyAndTest_rolled_back[OF w1ok False w2ok] obtain out err w2 where
      a: "applyAndTest e f orig fixed cfg w1 =
            (Inr \<lparr>ar_success = False, ar_testOutput = out, ar_error = err\<rparr>, w2)"
      and f2: "files w2 = (files w1)(f \<mapsto> orig)"
      and l2: "last (trace w2) = EvWrite f orig" by blast
    have "(files w)(f \<mapsto> orig) = files w" using ex by (rule map_upd_triv)
    then show ?thesis
      using False tr a f2 l2 fw1 by (simp add: fixBug_of_try createErrorResult_def)
  qed
qed

lemma fixBug_before_proposal:
  assumes cfg: "createFixConfig e opts w = Inr cfg" and ex: "files w f = Some orig"
      and prp: "analyzeAndFix e orig f m cfg w = (Inl err, w1)"
  shows "fixBug e f m opts w = (Inr (createErrorResult f err noMetadata (nowISO e w1)), w1) \<and>
         files w1 = files w"
proof -
  have "files w1 = files w"
    using analyzeAndFix_files[of e orig f m cfg w] prp by simp
  then show ?thesis
    using fixBugTry_proposal_error[OF cfg ex prp] by (simp add: fixBug_of_try)
qed

lemma fixBug_config_error:
  assumes "createFixConfig e opts w = Inl err"
  shows "fixBug e f m opts w = (Inr (createErrorResult f err noMetadata (nowISO e w)), w)"
  using fixBugTry_config_error[OF assms] by (simp add: fixBug_of_try)

lemma createErrorResult_fields [simp]:
  "fr_success (createErrorResult f err md ts) = False"
  "fr_fixedCode (createErrorResult f err md ts) = None"
  "fr_error (createErrorResult f err md ts) = Some (errorText err)"
  by (simp_all add: createErrorResult_def)

text \<open>
  C1, as the code has it. On an existing file and under a file store whose writes do not
  fault, \<open>fixBug\<close> returns a result and leaves the file with the patch when the result is
  a success and with its original content otherwise; no other file changes. Once the model
  has answered, the patch is the normalised answer, the result is a success exactly when
  the verification run passed, and after a failed run the last thing done before the
  result is returned is the write that restores the original.
\<close>

theorem fixBug_final_content:
  assumes ex: "files w filename = Some original"
      and nofault: "\<forall>w' p c. writeFileFault e w' p c = WriteOk"
  shows "\<exists>res w'. fixBug e filename errorMessage options w = (Inr res, w') \<and>
          (fr_success res \<longrightarrow> fr_fixedCode res \<noteq> None \<and> files w' filename = fr_fixedCode res) \<and>
          (\<not> fr_success res \<longrightarrow> files w' filename = Some original) \<and>
          (\<forall>p. p \<noteq> filename \<longrightarrow> files w' p = files w p) \<and>
          (\<forall>cfg fixed.
             createFixConfig e options w = Inr cfg \<and>
             fst (analyzeAndFix e original filename errorMessage cfg w) = Inr fixed \<longrightarrow>
               (\<exists>q response. generateText e w q = Inr response \<and>
                              fixed = extractCleanCode (gr_text response)) \<and>
               fr_success res =
                 verificationPassed e cfg filename fixed
                   (snd (analyzeAndFix e original filename errorMessage cfg w)) \<and>
               (fr_success res \<longrightarrow> fr_fixedCode res = Some fixed) \<and>
               (\<not> fr_success res \<longrightarrow> last (trace w') = EvWrite filename original))"
proof (cases "createFixConfig e options w")
  case (Inl err)
  show ?thesis
    using fixBug_config_error[OF Inl, of filename errorMessage] ex Inl by simp
next
  case (Inr cfg)
  obtain r w1 where af: "analyzeAndFix e original filename errorMessage cfg w = (r, w1)"
    by (cases "analyzeAndFix e original filename errorMessage cfg w")
  show ?thesis
  proof (cases r)
    case (Inl err)
    show ?thesis
      using fixBug_before_proposal[OF Inr ex af[unfolded Inl]] ex Inr af Inl by simp
  next
    case fixedCase: (Inr fixed)
    have af': "analyzeAndFix e original filename errorMessage cfg w = (Inr fixed, w1)"
      using af fixedCase by simp
    have w1ok: "writeFileFault e w1 filename fixed = WriteOk" using nofault by simp
    have w2ok: "writeFileFault e (worldAtRollback e cfg filename fixed w1) filename original = WriteOk"
      using nofault by simp
    from fixBug_after_proposal[OF Inr ex af' w1ok w2ok] obtain res w' where
      fb: "fixBug e filename errorMessage options w = (Inr res, w')"
      and out: "if verificationPassed e cfg filename fixed w1
           then fr_success res \<and> fr_fixedCode res = Some fixed \<and> fr_originalCode res = Some original \<and>
                fr_linesChanged res = Some (countChangedLines original fixed) \<and>
                files w' = (files w)(filename \<mapsto> fixed)
           else \<not> fr_success res \<and> fr_error res = Some ''Tests failed after applying fix'' \<and>
                files w' = files w \<and> last (trace w') = EvWrite filename original"
      by blast
    from analyzeAndFix_normalised[OF af'] obtain q response where
      norm: "generateText e w q = Inr response" "fixed = extractCleanCode (gr_text response)"
      by blast
    show ?thesis
    proof (cases "verificationPassed e cfg filename fixed w1")
      case True
      with out fb Inr af' norm show ?thesis by auto
    next
      case False
      with out fb Inr af' norm ex show ?thesis by auto
    qed
  qed
qed

theorem fixBug_final_content_witness:
  "files cartWorld ''./cart.js'' = Some ''bug'' \<and>
   (\<forall>w' p c. writeFileFault baseEnv w' p c = WriteOk) \<and>
   (\<forall>w' p c. writeFileFault failingEnv w' p c = WriteOk) \<and>
   (\<exists>res w'. fixBug baseEnv ''./cart.js'' [] noOptions cartWorld = (Inr res, w') \<and>
              fr_success res \<and> files w' ''./cart.js'' = Some ''fix'') \<and>
   (\<exists>res w'. fixBug failingEnv ''./cart.js'' [] noOptions cartWorld = (Inr res, w') \<and>
              \<not> fr_success res \<and> files w' ''./cart.js'' = Some ''bug'')"
proof -
  have h1: "files cartWorld ''./cart.js'' = Some ''bug''" by (simp add: cartWorld_def)
  have h2: "\<forall>w' p c. writeFileFault baseEnv w' p c = WriteOk" by (simp add: baseEnv_def)
  have h3: "\<forall>w' p c. writeFileFault failingEnv w' p c = WriteOk"
    by (simp add: failingEnv_def baseEnv_def)
  have ok: "fst (fixBug baseEnv ''./cart.js'' [] noOptions cartWorld) =
              Inr (createSuccessResult ''bug'' ''fix'' ''./cart.js''
                     \<lparr>md_testOutput = Some [], md_testError = None,
                      md_model = Some ''gpt-4o-mini''\<rparr> timestamp0)"
    by code_simp
  have bad: "fst (fixBug failingEnv ''./cart.js'' [] noOptions cartWorld) =
               Inr (createErrorResult ''./cart.js'' (Error ''Tests failed after applying fix'')
                      \<lparr>md_testOutput = Some ''FAIL'', md_testError = Some ''Command failed'',
                       md_model = None\<rparr> timestamp0)"
    by code_simp
  from fixBug_final_content[OF h1 h2, of "[]" noOptions] obtain res w' where
    a: "fixBug baseEnv ''./cart.js'' [] noOptions cartWorld = (Inr res, w')"
    and b: "fr_success res \<longrightarrow> fr_fixedCode res \<noteq> None \<and> files w' ''./cart.js'' = fr_fixedCode res"
    by (elim exE conjE) (rule that; assumption)
  from a ok have "res = createSuccessResult ''bug'' ''fix'' ''./cart.js''
                     \<lparr>md_testOutput = Some [], md_testError = None,
                      md_model = Some ''gpt-4o-mini''\<rparr> timestamp0" by simp
  then have "fr_success res" "fr_fixedCode res = Some ''fix''"
    by (simp_all add: createSuccessResult_def)
  with a b have "fixBug baseEnv ''./cart.js'' [] noOptions cartWorld = (Inr res, w') \<and>
              fr_success res \<and> files w' ''./cart.js'' = Some ''fix''" by simp
  then have first: "\<exists>res w'. fixBug baseEnv ''./cart.js'' [] noOptions cartWorld = (Inr res, w') \<and>
              fr_success res \<and> files w' ''./cart.js'' = Some ''fix''" by (intro exI) assumption
  from fixBug_final_content[OF h1 h3, of "[]" noOptions] obtain res2 w2 where
    c: "fixBug failingEnv ''./cart.js'' [] noOptions cartWorld = (Inr res2, w2)"
    and d: "\<not> fr_success res2 \<longrightarrow> files w2 ''./cart.js'' = Some ''bug''"
    by (elim exE conjE) (rule that; assumption)
  from c bad have "\<not> fr_success res2" by simp
  with c d have "fixBug failingEnv ''./cart.js'' [] noOptions cartWorld = (Inr res2, w2) \<and>
              \<not> fr_success res2 \<and> files w2 ''./cart.js'' = Some ''bug''" by simp
  then have second: "\<exists>res w'. fixBug failingEnv ''./cart.js'' [] noOptions cartWorld = (Inr res, w') \<and>
              \<not> fr_success res \<and> files w' ''./cart.js'' = Some ''bug''" by (intro exI) assumption
  show ?thesis by (intro conjI) (rule h1 h2 h3 first second)+
qed

text \<open>
  C1 as the spec states it fails when the write that restores the original faults: the
  verification run failed, the attempt is reported as a failure, and the patch stays on
  disk.
\<close>

theorem rollback_fault_leaves_patch:
  "files cartWorld ''./cart.js'' = Some ''bug'' \<and>
   fst (analyzeAndFix rollbackFaultEnv ''bug'' ''./cart.js'' [] baseConfig cartWorld) = Inr ''fix'' \<and>
   \<not> verificationPassed rollbackFaultEnv baseConfig ''./cart.js'' ''fix''
        (snd (analyzeAndFix rollbackFaultEnv ''bug'' ''./cart.js'' [] baseConfig cartWorld)) \<and>
   fst (fixBug rollbackFaultEnv ''./cart.js'' [] noOptions cartWorld) =
     Inr (createErrorResult ''./cart.js'' (Error ''EIO: i/o error, write'') noMetadata timestamp0) \<and>
   files (snd (fixBug rollbackFaultEnv ''./cart.js'' [] noOptions cartWorld)) ''./cart.js'' =
     Some ''fix''"
proof (intro conjI)
  show "files cartWorld ''./cart.js'' = Some ''bug''" by (simp add: cartWorld_def)
  show "fst (analyzeAndFix rollbackFaultEnv ''bug'' ''./cart.js'' [] baseConfig cartWorld) = Inr ''fix''"
    by code_simp
  show "\<not> verificationPassed rollbackFaultEnv baseConfig ''./cart.js'' ''fix''
        (snd (analyzeAndFix rollbackFaultEnv ''bug'' ''./cart.js'' [] baseConfig cartWorld))"
    by code_simp
  show "fst (fixBug rollbackFaultEnv ''./cart.js'' [] noOptions cartWorld) =
     Inr (createErrorResult ''./cart.js'' (Error ''EIO: i/o error, write'') noMetadata timestamp0)"
    by code_simp
  show "files (snd (fixBug rollbackFaultEnv ''./cart.js'' [] noOptions cartWorld)) ''./cart.js'' =
     Some ''fix''"
    by code_simp
qed

section \<open>An empty answer\<close>

text \<open>
  C6, as the code has it. \<open>fixBug\<close> has no check for an empty patch: when the normalised
  answer is empty it is written and verified like any other patch. Under a file store
  whose writes do not fault, the file is left empty and the attempt succeeds when the
  verification run passes, and the file is rolled back to the original and the attempt
  fails when it does not.
\<close>

theorem empty_answer_is_applied:
  assumes "createFixConfig e options w = Inr cfg"
      and "files w filename = Some original"
      and "fst (analyzeAndFix e original filename errorMessage cfg w) = Inr []"
      and "\<forall>w' p c. writeFileFault e w' p c = WriteOk"
  shows "\<exists>res w'. fixBug e filename errorMessage options w = (Inr res, w') \<and>
          (if verificationPassed e cfg filename []
                (snd (analyzeAndFix e original filename errorMessage cfg w))
           then fr_success res \<and> fr_fixedCode res = Some [] \<and> files w' filename = Some []
           else \<not> fr_success res \<and> fr_error res = Some ''Tests failed after applying fix'' \<and>
                files w' filename = Some original)"
proof -
  obtain w1 where af: "analyzeAndFix e original filename errorMessage cfg w = (Inr [], w1)"
    using assms(3) by (cases "analyzeAndFix e original filename errorMessage cfg w") auto
  have w1ok: "writeFileFault e w1 filename [] = WriteOk" using assms(4) by simp
  have w2ok: "writeFileFault e (worldAtRollback e cfg filename [] w1) filename original = WriteOk"
    using assms(4) by simp
  from fixBug_after_proposal[OF assms(1) assms(2) af w1ok w2ok] obtain res w' where
    fb: "fixBug e filename errorMessage options w = (Inr res, w')"
    and out: "if verificationPassed e cfg filename [] w1
           then fr_success res \<and> fr_fixedCode res = Some [] \<and> fr_originalCode res = Some original \<and>
                fr_linesChanged res = Some (countChangedLines original []) \<and>
                files w' = (files w)(filename \<mapsto> [])
           else \<not> fr_success res \<and> fr_error res = Some ''Tests failed after applying fix'' \<and>
                files w' = files w \<and> last (trace w') = EvWrite filename original"
    by blast
  show ?thesis
  proof (cases "verificationPassed e cfg filename [] w1")
    case True
    with out fb af show ?thesis by auto
  next
    case False
    with out fb af assms(2) show ?thesis by auto
  qed
qed

theorem empty_answer_is_applied_witness:
  "createFixConfig emptyAnswerEnv noOptions cartWorld = Inr baseConfig \<and>
   files cartWorld ''./cart.js'' = Some ''bug'' \<and>
   fst (analyzeAndFix emptyAnswerEnv ''bug'' ''./cart.js'' [] baseConfig cartWorld) = Inr [] \<and>
   (\<forall>w' p c. writeFileFault emptyAnswerEnv w' p c = WriteOk) \<and>
   verificationPassed emptyAnswerEnv baseConfig ''./cart.js'' []
     (snd (analyzeAndFix emptyAnswerEnv ''bug'' ''./cart.js'' [] baseConfig cartWorld)) \<and>
   (\<exists>res w'. fixBug emptyAnswerEnv ''./cart.js'' [] noOptions cartWorld = (Inr res, w') \<and>
              fr_success res \<and> fr_fixedCode res = Some [] \<and> files w' ''./cart.js'' = Some [])"
proof -
  have h1: "createFixConfig emptyAnswerEnv noOptions cartWorld = Inr baseConfig" by code_simp
  have h2: "files cartWorld ''./cart.js'' = Some ''bug''" by (simp add: cartWorld_def)
  have h3: "fst (analyzeAndFix emptyAnswerEnv ''bug'' ''./cart.js'' [] baseConfig cartWorld) = Inr []"
    by code_simp
  have h4: "\<forall>w' p c. writeFileFault emptyAnswerEnv w' p c = WriteOk"
    by (simp add: emptyAnswerEnv_def baseEnv_def)
  have h5: "verificationPassed emptyAnswerEnv baseConfig ''./cart.js'' []
     (snd (analyzeAndFix emptyAnswerEnv ''bug'' ''./cart.js'' [] baseConfig cartWorld))"
    by code_simp
  from empty_answer_is_applied[OF h1 h2 h3 h4] obtain res w' where
    fb: "fixBug emptyAnswerEnv ''./cart.js'' [] noOptions cartWorld = (Inr res, w')"
    and out: "if verificationPassed emptyAnswerEnv baseConfig ''./cart.js'' []
                (snd (analyzeAndFix emptyAnswerEnv ''bug'' ''./cart.js'' [] baseConfig cartWorld))
           then fr_success res \<and> fr_fixedCode res = Some [] \<and> files w' ''./cart.js'' = Some []
           else \<not> fr_success res \<and> fr_error res = Some ''Tests failed after applying fix'' \<and>
                files w' ''./cart.js'' = Some ''bug''"
    by (elim exE conjE) (rule that; assumption)
  from out h5 have "fr_success res \<and> fr_fixedCode res = Some [] \<and> files w' ''./cart.js'' = Some []"
    by (simp only: if_True)
  with fb have "fixBug emptyAnswerEnv ''./cart.js'' [] noOptions cartWorld = (Inr res, w') \<and>
              fr_success res \<and> fr_fixedCode res = Some [] \<and> files w' ''./cart.js'' = Some []"
    by simp
  then have last: "\<exists>res w'. fixBug emptyAnswerEnv ''./cart.js'' [] noOptions cartWorld = (Inr res, w') \<and>
              fr_success res \<and> fr_fixedCode res = Some [] \<and> files w' ''./cart.js'' = Some []"
    by (intro exI) assumption
  show ?thesis by (intro conjI) (rule h1 h2 h3 h4 h5 last)+
qed

text \<open>
  C6 as the spec states it fails: the model's answer is an empty fenced block, the tests
  pass with the emptied file, and the attempt is reported as a success with the file left
  empty.
\<close>

theorem empty_answer_left_on_disk:
  "fst (analyzeAndFix emptyAnswerEnv ''bug'' ''./cart.js'' [] baseConfig cartWorld) = Inr [] \<and>
   fst (fixBug emptyAnswerEnv ''./cart.js'' [] noOptions cartWorld) =
     Inr (createSuccessResult ''bug'' [] ''./cart.js''
            \<lparr>md_testOutput = Some [], md_testError = None, md_model = Some ''gpt-4o-mini''\<rparr>
            timestamp0) \<and>
   files (snd (fixBug emptyAnswerEnv ''./cart.js'' [] noOptions cartWorld)) ''./cart.js'' = Some []"
proof (intro conjI)
  show "fst (analyzeAndFix emptyAnswerEnv ''bug'' ''./cart.js'' [] baseConfig cartWorld) = Inr []"
    by code_simp
  show "fst (fixBug emptyAnswerEnv ''./cart.js'' [] noOptions cartWorld) =
     Inr (createSuccessResult ''bug'' [] ''./cart.js''
            \<lparr>md_testOutput = Some [], md_testError = None, md_model = Some ''gpt-4o-mini''\<rparr>
            timestamp0)"
    by code_simp
  show "files (snd (fixBug emptyAnswerEnv ''./cart.js'' [] noOptions cartWorld)) ''./cart.js'' = Some []"
    by code_simp
qed

section \<open>The errors of an attempt\<close>

lemma fixBug_missing_file:
  "createFixConfig e opts w = Inr cfg \<Longrightarrow> \<not> fileExists f w \<Longrightarrow>
   fixBug e f m opts w =
     (Inr (createErrorResult f (Error (''File not found: '' @ f)) noMetadata (nowISO e w)), w)"
  using fixBugTry_missing[of e opts w cfg f m] by (simp add: fixBug_of_try)

lemma analyzeAndFix_over_budget:
  assumes "buildBugFixPrompt e w code f m = Inr prompt"
      and "\<not> lim_allowed (isWithinLimits e (estimateCost e (fc_model cfg) code (fc_maxTokens cfg)))"
  shows "\<exists>msg. analyzeAndFix e code f m cfg w = (Inl (Error msg), w)"
  using assms by (simp add: analyzeAndFix_def Let_def)

lemma analyzeAndFix_model_error:
  assumes "buildBugFixPrompt e w code f m = Inr prompt"
      and "lim_allowed (isWithinLimits e (estimateCost e (fc_model cfg) code (fc_maxTokens cfg)))"
      and "generateText e w \<lparr>gq_prompt = prompt, gq_model = fc_model cfg,
                             gq_maxTokens = fc_maxTokens cfg,
                             gq_temperature = fc_temperature cfg\<rparr> = Inl err"
  shows "analyzeAndFix e code f m cfg w = (Inl err, logEvent (EvGenerate prompt) w)"
  using assms by (simp add: analyzeAndFix_def Let_def)

lemma fixBug_rollback_fault:
  assumes cfg: "createFixConfig e opts w = Inr cfg" and ex: "files w f = Some orig"
      and prp: "analyzeAndFix e orig f m cfg w = (Inr fixed, w1)"
      and w1ok: "writeFileFault e w1 f fixed = WriteOk"
      and failed: "\<not> verificationPassed e cfg f fixed w1"
      and fault: "writeFileFault e (worldAtRollback e cfg f fixed w1) f orig = WriteFault msg left"
  shows "\<exists>res w'. fixBug e f m opts w = (Inr res, w') \<and> \<not> fr_success res \<and>
           fr_error res = Some (errorText (Error msg)) \<and>
           files w' f = Some (case left of None \<Rightarrow> fixed | Some d \<Rightarrow> d)"
proof -
  from applyAndTest_rollback_fault[OF w1ok failed fault] obtain w2 where
    a: "applyAndTest e f orig fixed cfg w1 = (Inl (Error msg), w2)"
    and f2: "files w2 = (case left of None \<Rightarrow> (files w1)(f \<mapsto> fixed)
                         | Some d \<Rightarrow> (files w1)(f \<mapsto> d))"
    by blast
  have "fixBugTry e f m opts w = (Inl (Error msg), w2)"
    using fixBugTry_applied[OF cfg ex prp] a by simp
  then have "fixBug e f m opts w =
               (Inr (createErrorResult f (Error msg) noMetadata (nowISO e w2)), w2)"
    by (simp add: fixBug_of_try)
  moreover have "files w2 f = Some (case left of None \<Rightarrow> fixed | Some d \<Rightarrow> d)"
    using f2 by (simp split: option.splits)
  ultimately show ?thesis by simp
qed

lemma analyzeAndFix_pair:
  "fst (analyzeAndFix e code f m cfg w) = r \<Longrightarrow>
   analyzeAndFix e code f m cfg w = (r, snd (analyzeAndFix e code f m cfg w))"
  by (cases "analyzeAndFix e code f m cfg w") simp

text \<open>
  C2, as the code has it. \<open>fixBug\<close> always returns a result: whatever is thrown inside its
  \<open>try\<close> block becomes a failure result carrying the error's text. That holds for a missing
  file, a tripped budget gate, a failed model call and failing tests, and it also holds for
  a fault of the write that restores the original: the fault does not leave \<open>fixBug\<close>, the
  result is a failure with the fault's message, and the file keeps what the faulted write
  left in it.
\<close>

theorem fixBug_converts_every_error:
  "(\<exists>res w'. fixBug e f m opts w = (Inr res, w')) \<and>
   (\<forall>err. fst (fixBugTry e f m opts w) = Inl err \<longrightarrow>
      fst (fixBug e f m opts w) =
        Inr (createErrorResult f err noMetadata (nowISO e (snd (fixBugTry e f m opts w)))) \<and>
      snd (fixBug e f m opts w) = snd (fixBugTry e f m opts w)) \<and>
   (\<forall>cfg. createFixConfig e opts w = Inr cfg \<longrightarrow> \<not> fileExists f w \<longrightarrow>
      fixBug e f m opts w =
        (Inr (createErrorResult f (Error (''File not found: '' @ f)) noMetadata (nowISO e w)), w)) \<and>
   (\<forall>cfg orig prompt.
      createFixConfig e opts w = Inr cfg \<longrightarrow> files w f = Some orig \<longrightarrow>
      buildBugFixPrompt e w orig f m = Inr prompt \<longrightarrow>
      \<not> lim_allowed (isWithinLimits e (estimateCost e (fc_model cfg) orig (fc_maxTokens cfg))) \<longrightarrow>
      (\<exists>msg. fixBug e f m opts w =
                (Inr (createErrorResult f (Error msg) noMetadata (nowISO e w)), w))) \<and>
   (\<forall>cfg orig prompt err.
      createFixConfig e opts w = Inr cfg \<longrightarrow> files w f = Some orig \<longrightarrow>
      buildBugFixPrompt e w orig f m = Inr prompt \<longrightarrow>
      lim_allowed (isWithinLimits e (estimateCost e (fc_model cfg) orig (fc_maxTokens cfg))) \<longrightarrow>
      generateText e w \<lparr>gq_prompt = prompt, gq_model = fc_model cfg,
                         gq_maxTokens = fc_maxTokens cfg,
                         gq_temperature = fc_temperature cfg\<rparr> = Inl err \<longrightarrow>
      fst (fixBug e f m opts w) =
        Inr (createErrorResult f err noMetadata (nowISO e (logEvent (EvGenerate prompt) w))) \<and>
      files (snd (fixBug e f m opts w)) = files w) \<and>
   (\<forall>cfg orig fixed.
      createFixConfig e opts w = Inr cfg \<longrightarrow> files w f = Some orig \<longrightarrow>
      fst (analyzeAndFix e orig f m cfg w) = Inr fixed \<longrightarrow>
      writeFileFault e (snd (analyzeAndFix e orig f m cfg w)) f fixed = WriteOk \<longrightarrow>
      \<not> verificationPassed e cfg f fixed (snd (analyzeAndFix e orig f m cfg w)) \<longrightarrow>
      writeFileFault e (worldAtRollback e cfg f fixed (snd (analyzeAndFix e orig f m cfg w))) f orig
        = WriteOk \<longrightarrow>
      (\<exists>res w'. fixBug e f m opts w = (Inr res, w') \<and> \<not> fr_success res \<and>
                 fr_error res = Some ''Tests failed after applying fix'' \<and> files w' = files w)) \<and>
   (\<forall>cfg orig fixed msg left.
      createFixConfig e opts w = Inr cfg \<longrightarrow> files w f = Some orig \<longrightarrow>
      fst (analyzeAndFix e orig f m cfg w) = Inr fixed \<longrightarrow>
      writeFileFault e (snd (analyzeAndFix e orig f m cfg w)) f fixed = WriteOk \<longrightarrow>
      \<not> verificationPassed e cfg f fixed (snd (analyzeAndFix e orig f m cfg w)) \<longrightarrow>
      writeFileFault e (worldAtRollback e cfg f fixed (snd (analyzeAndFix e orig f m cfg w))) f orig
        = WriteFault msg left \<longrightarrow>
      (\<exists>res w'. fixBug e f m opts w = (Inr res, w') \<and> \<not> fr_success res \<and>
                 fr_error res = Some (errorText (Error msg)) \<and>
                 files w' f = Some (case left of None \<Rightarrow> fixed | Some d \<Rightarrow> d)))"
proof (intro conjI allI impI)
  show "\<exists>res w'. fixBug e f m opts w = (Inr res, w')" by (rule fixBug_returns)
next
  fix err assume "fst (fixBugTry e f m opts w) = Inl err"
  then show "fst (fixBug e f m opts w) =
        Inr (createErrorResult f err noMetadata (nowISO e (snd (fixBugTry e f m opts w))))"
    by (cases "fixBugTry e f m opts w") (simp add: fixBug_of_try)
next
  fix err assume "fst (fixBugTry e f m opts w) = Inl err"
  then show "snd (fixBug e f m opts w) = snd (fixBugTry e f m opts w)"
    by (cases "fixBugTry e f m opts w") (simp add: fixBug_of_try)
next
  fix cfg assume "createFixConfig e opts w = Inr cfg" "\<not> fileExists f w"
  then show "fixBug e f m opts w =
        (Inr (createErrorResult f (Error (''File not found: '' @ f)) noMetadata (nowISO e w)), w)"
    by (rule fixBug_missing_file)
next
  fix cfg orig prompt
  assume cfg: "createFixConfig e opts w = Inr cfg" and ex: "files w f = Some orig"
    and p: "buildBugFixPrompt e w orig f m = Inr prompt"
    and over: "\<not> lim_allowed (isWithinLimits e (estimateCost e (fc_model cfg) orig (fc_maxTokens cfg)))"
  from analyzeAndFix_over_budget[OF p over] obtain msg where
    "analyzeAndFix e orig f m cfg w = (Inl (Error msg), w)" by blast
  from fixBug_before_proposal[OF cfg ex this]
  show "\<exists>msg. fixBug e f m opts w =
                (Inr (createErrorResult f (Error msg) noMetadata (nowISO e w)), w)" by blast
next
  fix cfg orig prompt err
  assume cfg: "createFixConfig e opts w = Inr cfg" and ex: "files w f = Some orig"
    and p: "buildBugFixPrompt e w orig f m = Inr prompt"
    and ok: "lim_allowed (isWithinLimits e (estimateCost e (fc_model cfg) orig (fc_maxTokens cfg)))"
    and g: "generateText e w \<lparr>gq_prompt = prompt, gq_model = fc_model cfg,
                         gq_maxTokens = fc_maxTokens cfg,
                         gq_temperature = fc_temperature cfg\<rparr> = Inl err"
  note r = fixBug_before_proposal[OF cfg ex analyzeAndFix_model_error[OF p ok g]]
  from r show "fst (fixBug e f m opts w) =
        Inr (createErrorResult f err noMetadata (nowISO e (logEvent (EvGenerate prompt) w)))"
    by simp
  from r show "files (snd (fixBug e f m opts w)) = files w" by simp
next
  fix cfg orig fixed
  assume cfg: "createFixConfig e opts w = Inr cfg" and ex: "files w f = Some orig"
    and a: "fst (analyzeAndFix e orig f m cfg w) = Inr fixed"
    and w1ok: "writeFileFault e (snd (analyzeAndFix e orig f m cfg w)) f fixed = WriteOk"
    and failed: "\<not> verificationPassed e cfg f fixed (snd (analyzeAndFix e orig f m cfg w))"
    and w2ok: "writeFileFault e
                 (worldAtRollback e cfg f fixed (snd (analyzeAndFix e orig f m cfg w))) f orig = WriteOk"
  from fixBug_after_proposal[OF cfg ex analyzeAndFix_pair[OF a] w1ok w2ok] failed
  show "\<exists>res w'. fixBug e f m opts w = (Inr res, w') \<and> \<not> fr_success res \<and>
                 fr_error res = Some ''Tests failed after applying fix'' \<and> files w' = files w"
    by auto
next
  fix cfg orig fixed msg left
  assume cfg: "createFixConfig e opts w = Inr cfg" and ex: "files w f = Some orig"
    and a: "fst (analyzeAndFix e orig f m cfg w) = Inr fixed"
    and w1ok: "writeFileFault e (snd (analyzeAndFix e orig f m cfg w)) f fixed = WriteOk"
    and failed: "\<not> verificationPassed e cfg f fixed (snd (analyzeAndFix e orig f m cfg w))"
    and fault: "writeFileFault e
                 (worldAtRollback e cfg f fixed (snd (analyzeAndFix e orig f m cfg w))) f orig
                  = WriteFault msg left"
  show "\<exists>res w'. fixBug e f m opts w = (Inr res, w') \<and> \<not> fr_success res \<and>
                 fr_error res = Some (errorText (Error msg)) \<and>
                 files w' f = Some (case left of None \<Rightarrow> fixed | Some d \<Rightarrow> d)"
    by (rule fixBug_rollback_fault[OF cfg ex analyzeAndFix_pair[OF a] w1ok failed fault])
qed

theorem fixBug_converts_every_error_witness:
  "(createFixConfig baseEnv noOptions emptyWorld = Inr baseConfig \<and>
    \<not> fileExists ''./cart.js'' emptyWorld \<and>
    fixBug baseEnv ''./cart.js'' [] noOptions emptyWorld =
      (Inr (createErrorResult ''./cart.js'' (Error (''File not found: '' @ ''./cart.js''))
              noMetadata (nowISO baseEnv emptyWorld)), emptyWorld)) \<and>
   (createFixConfig overBudgetEnv noOptions cartWorld = Inr baseConfig \<and>
    files cartWorld ''./cart.js'' = Some ''bug'' \<and>
    buildBugFixPrompt overBudgetEnv cartWorld ''bug'' ''./cart.js'' [] = Inr ''prompt'' \<and>
    \<not> lim_allowed (isWithinLimits overBudgetEnv
          (estimateCost overBudgetEnv (fc_model baseConfig) ''bug'' (fc_maxTokens baseConfig))) \<and>
    (\<exists>msg. fixBug overBudgetEnv ''./cart.js'' [] noOptions cartWorld =
              (Inr (createErrorResult ''./cart.js'' (Error msg) noMetadata
                      (nowISO overBudgetEnv cartWorld)), cartWorld))) \<and>
   (createFixConfig modelDownEnv noOptions cartWorld = Inr baseConfig \<and>
    buildBugFixPrompt modelDownEnv cartWorld ''bug'' ''./cart.js'' [] = Inr ''prompt'' \<and>
    lim_allowed (isWithinLimits modelDownEnv
          (estimateCost modelDownEnv (fc_model baseConfig) ''bug'' (fc_maxTokens baseConfig))) \<and>
    generateText modelDownEnv cartWorld
      \<lparr>gq_prompt = ''prompt'', gq_model = fc_model baseConfig,
       gq_maxTokens = fc_maxTokens baseConfig,
       gq_temperature = fc_temperature baseConfig\<rparr> = Inl (Error ''model unavailable'') \<and>
    fst (fixBug modelDownEnv ''./cart.js'' [] noOptions cartWorld) =
      Inr (createErrorResult ''./cart.js'' (Error ''model unavailable'') noMetadata
             (nowISO modelDownEnv (logEvent (EvGenerate ''prompt'') cartWorld))) \<and>
    files (snd (fixBug modelDownEnv ''./cart.js'' [] noOptions cartWorld)) = files cartWorld) \<and>
   (createFixConfig failingEnv noOptions cartWorld = Inr baseConfig \<and>
    fst (analyzeAndFix failingEnv ''bug'' ''./cart.js'' [] baseConfig cartWorld) = Inr ''fix'' \<and>
    writeFileFault failingEnv
      (snd (analyzeAndFix failingEnv ''bug'' ''./cart.js'' [] baseConfig cartWorld))
      ''./cart.js'' ''fix'' = WriteOk \<and>
    \<not> verificationPassed failingEnv baseConfig ''./cart.js'' ''fix''
         (snd (analyzeAndFix failingEnv ''bug'' ''./cart.js'' [] baseConfig cartWorld)) \<and>
    writeFileFault failingEnv
      (worldAtRollback failingEnv baseConfig ''./cart.js'' ''fix''
         (snd (analyzeAndFix failingEnv ''bug'' ''./cart.js'' [] baseConfig cartWorld)))
      ''./cart.js'' ''bug'' = WriteOk \<and>
    (\<exists>res w'. fixBug failingEnv ''./cart.js'' [] noOptions cartWorld = (Inr res, w') \<and>
               \<not> fr_success res \<and> fr_error res = Some ''Tests failed after applying fix'' \<and>
               files w' = files cartWorld)) \<and>
   (createFixConfig rollbackFaultEnv noOptions cartWorld = Inr baseConfig \<and>
    fst (analyzeAndFix rollbackFaultEnv ''bug'' ''./cart.js'' [] baseConfig cartWorld) = Inr ''fix'' \<and>
    writeFileFault rollbackFaultEnv
      (snd (analyzeAndFix rollbackFaultEnv ''bug'' ''./cart.js'' [] baseConfig cartWorld))
      ''./cart.js'' ''fix'' = WriteOk \<and>
    \<not> verificationPassed rollbackFaultEnv baseConfig ''./cart.js'' ''fix''
         (snd (analyzeAndFix rollbackFaultEnv ''bug'' ''./cart.js'' [] baseConfig cartWorld)) \<and>
    writeFileFault rollbackFaultEnv
      (worldAtRollback rollbackFaultEnv baseConfig ''./cart.js'' ''fix''
         (snd (analyzeAndFix rollbackFaultEnv ''bug'' ''./cart.js'' [] baseConfig cartWorld)))
      ''./cart.js'' ''bug'' = WriteFault ''EIO: i/o error, write'' None \<and>
    (\<exists>res w'. fixBug rollbackFaultEnv ''./cart.js'' [] noOptions cartWorld = (Inr res, w') \<and>
               \<not> fr_success res \<and>
               fr_error res = Some (errorText (Error ''EIO: i/o error, write'')) \<and>
               files w' ''./cart.js'' = Some (case None of None \<Rightarrow> ''fix'' | Some d \<Rightarrow> d)))"
proof -
  have ex: "files cartWorld ''./cart.js'' = Some ''bug''" by (simp add: cartWorld_def)
  have m1: "createFixConfig baseEnv noOptions emptyWorld = Inr baseConfig" by code_simp
  have m2: "\<not> fileExists ''./cart.js'' emptyWorld" by (simp add: fileExists_def emptyWorld_def)
  note m3 = fixBug_converts_every_error[of baseEnv "''./cart.js''" "[]" noOptions emptyWorld,
              THEN conjunct2, THEN conjunct2, THEN conjunct1, rule_format, OF m1 m2]
  have b1: "createFixConfig overBudgetEnv noOptions cartWorld = Inr baseConfig" by code_simp
  have b2: "buildBugFixPrompt overBudgetEnv cartWorld ''bug'' ''./cart.js'' [] = Inr ''prompt''"
    by (simp add: overBudgetEnv_def baseEnv_def)
  have b3: "\<not> lim_allowed (isWithinLimits overBudgetEnv
          (estimateCost overBudgetEnv (fc_model baseConfig) ''bug'' (fc_maxTokens baseConfig)))"
    by (simp add: overBudgetEnv_def baseEnv_def)
  note b4 = fixBug_converts_every_error[of overBudgetEnv "''./cart.js''" "[]" noOptions cartWorld,
              THEN conjunct2, THEN conjunct2, THEN conjunct2, THEN conjunct1, rule_format,
              OF b1 ex b2 b3]
  have p1: "createFixConfig modelDownEnv noOptions cartWorld = Inr baseConfig" by code_simp
  have p2: "buildBugFixPrompt modelDownEnv cartWorld ''bug'' ''./cart.js'' [] = Inr ''prompt''"
    by (simp add: modelDownEnv_def baseEnv_def)
  have p3: "lim_allowed (isWithinLimits modelDownEnv
          (estimateCost modelDownEnv (fc_model baseConfig) ''bug'' (fc_maxTokens baseConfig)))"
    by (simp add: modelDownEnv_def baseEnv_def)
  have p4: "generateText modelDownEnv cartWorld
      \<lparr>gq_prompt = ''prompt'', gq_model = fc_model baseConfig,
       gq_maxTokens = fc_maxTokens baseConfig,
       gq_temperature = fc_temperature baseConfig\<rparr> = Inl (Error ''model unavailable'')"
    by (simp add: modelDownEnv_def baseEnv_def)
  note p5 = fixBug_converts_every_error[of modelDownEnv "''./cart.js''" "[]" noOptions cartWorld,
              THEN conjunct2, THEN conjunct2, THEN conjunct2, THEN conjunct2, THEN conjunct1,
              rule_format, OF p1 ex p2 p3 p4]
  have t1: "createFixConfig failingEnv noOptions cartWorld = Inr baseConfig" by code_simp
  have t2: "fst (analyzeAndFix failingEnv ''bug'' ''./cart.js'' [] baseConfig cartWorld) = Inr ''fix''"
    by code_simp
  have t3: "writeFileFault failingEnv
      (snd (analyzeAndFix failingEnv ''bug'' ''./cart.js'' [] baseConfig cartWorld))
      ''./cart.js'' ''fix'' = WriteOk"
    by (simp add: failingEnv_def baseEnv_def)
  have t4: "\<not> verificationPassed failingEnv baseConfig ''./cart.js'' ''fix''
         (snd (analyzeAndFix failingEnv ''bug'' ''./cart.js'' [] baseConfig cartWorld))"
    by code_simp
  have t5: "writeFileFault failingEnv
      (worldAtRollback failingEnv baseConfig ''./cart.js'' ''fix''
         (snd (analyzeAndFix failingEnv ''bug'' ''./cart.js'' [] baseConfig cartWorld)))
      ''./cart.js'' ''bug'' = WriteOk"
    by (simp add: failingEnv_def baseEnv_def)
  note t6 = fixBug_converts_every_error[of failingEnv "''./cart.js''" "[]" noOptions cartWorld,
              THEN conjunct2, THEN conjunct2, THEN conjunct2, THEN conjunct2, THEN conjunct2,
              THEN conjunct1, rule_format, OF t1 ex t2 t3 t4 t5]
  have r1: "createFixConfig rollbackFaultEnv noOptions cartWorld = Inr baseConfig" by code_simp
  have r2: "fst (analyzeAndFix rollbackFaultEnv ''bug'' ''./cart.js'' [] baseConfig cartWorld) = Inr ''fix''"
    by code_simp
  have r3: "writeFileFault rollbackFaultEnv
      (snd (analyzeAndFix rollbackFaultEnv ''bug'' ''./cart.js'' [] baseConfig cartWorld))
      ''./cart.js'' ''fix'' = WriteOk"
    by (simp add: rollbackFaultEnv_def baseEnv_def rollbackFault_def)
  have r4: "\<not> verificationPassed rollbackFaultEnv baseConfig ''./cart.js'' ''fix''
         (snd (analyzeAndFix rollbackFaultEnv ''bug'' ''./cart.js'' [] baseConfig cartWorld))"
    by code_simp
  have r5: "writeFileFault rollbackFaultEnv
      (worldAtRollback rollbackFaultEnv baseConfig ''./cart.js'' ''fix''
         (snd (analyzeAndFix rollbackFaultEnv ''bug'' ''./cart.js'' [] baseConfig cartWorld)))
      ''./cart.js'' ''bug'' = WriteFault ''EIO: i/o error, write'' None"
    by (simp add: rollbackFaultEnv_def baseEnv_def rollbackFault_def)
  note r6 = fixBug_converts_every_error[of rollbackFaultEnv "''./cart.js''" "[]" noOptions cartWorld,
              THEN conjunct2, THEN conjunct2, THEN conjunct2, THEN conjunct2, THEN conjunct2,
              THEN conjunct2, rule_format, OF r1 ex r2 r3 r4 r5]
  show ?thesis
    by (intro conjI)
       (rule ex m1 m2 m3 b1 b2 b3 b4 p1 p2 p3 p4 p5[THEN conjunct1] p5[THEN conjunct2]
             t1 t2 t3 t4 t5 t6 r1 r2 r3 r4 r5 r6)+
qed

text \<open>
  C2 as the spec states it fails in its last part: where the write that restores the
  original faults, the fault is thrown inside the \<open>try\<close> block and \<open>fixBug\<close> returns a
  failure result instead of letting it through.
\<close>

theorem rollback_fault_is_caught:
  "writeFileFault rollbackFaultEnv
     (worldAtRollback rollbackFaultEnv baseConfig ''./cart.js'' ''fix''
        (snd (analyzeAndFix rollbackFaultEnv ''bug'' ''./cart.js'' [] baseConfig cartWorld)))
     ''./cart.js'' ''bug'' = WriteFault ''EIO: i/o error, write'' None \<and>
   fst (fixBugTry rollbackFaultEnv ''./cart.js'' [] noOptions cartWorld) =
     Inl (Error ''EIO: i/o error, write'') \<and>
   \<not> isl (fst (fixBug rollbackFaultEnv ''./cart.js'' [] noOptions cartWorld)) \<and>
   fr_error (projr (fst (fixBug rollbackFaultEnv ''./cart.js'' [] noOptions cartWorld))) =
     Some ''EIO: i/o error, write''"
proof (intro conjI)
  show "writeFileFault rollbackFaultEnv
     (worldAtRollback rollbackFaultEnv baseConfig ''./cart.js'' ''fix''
        (snd (analyzeAndFix rollbackFaultEnv ''bug'' ''./cart.js'' [] baseConfig cartWorld)))
     ''./cart.js'' ''bug'' = WriteFault ''EIO: i/o error, write'' None"
    by (simp add: rollbackFaultEnv_def baseEnv_def rollbackFault_def)
  show "fst (fixBugTry rollbackFaultEnv ''./cart.js'' [] noOptions cartWorld) =
     Inl (Error ''EIO: i/o error, write'')"
    by code_simp
  show "\<not> isl (fst (fixBug rollbackFaultEnv ''./cart.js'' [] noOptions cartWorld))"
    by code_simp
  show "fr_error (projr (fst (fixBug rollbackFaultEnv ''./cart.js'' [] noOptions cartWorld))) =
     Some ''EIO: i/o error, write''"
    by code_simp
qed

section \<open>Tracking the cost of a model call\<close>

lemma trackCostCalls_append [simp]:
  "trackCostCalls (xs @ ys) = trackCostCalls xs @ trackCostCalls ys"
  by (simp add: trackCostCalls_def)

lemma trackCostCalls_single [simp]:
  "trackCostCalls [ev] = (if isTrackCost ev then [ev] else [])"
  by (simp add: trackCostCalls_def)











section \<open>The files to fix\<close>

lemma setAdd_distinct: "distinct xs \<Longrightarrow> distinct (setAdd xs x)"
  by (simp add: setAdd_def)

lemma addMentioned_distinct: "distinct found \<Longrightarrow> distinct (addMentioned w ms found)"
  by (induction ms arbitrary: found) (simp_all add: Let_def setAdd_distinct)

lemma identifyFilesToFix_distinct: "distinct (identifyFilesToFix output w)"
  by (simp add: identifyFilesToFix_def Let_def addMentioned_distinct setAdd_def)

lemma addMentioned_pointwise:
  assumes "\<forall>m \<in> set ms. \<not> includesStr m ''test'' \<and> \<not> includesStr m ''node_modules'' \<and>
             fileExists (withDotSlash m) w \<longrightarrow> withDotSlash m = p"
  shows "addMentioned w ms [p] = [p]"
  using assms by (induction ms) (auto simp: Let_def setAdd_def)

lemma addMentioned_only:
  assumes "set (filter (\<lambda>path. fileExists path w)
             (map withDotSlash
                (filter (\<lambda>file. \<not> includesStr file ''test'' \<and> \<not> includesStr file ''node_modules'')
                   ms))) \<subseteq> {p}"
  shows "addMentioned w ms [p] = [p]"
proof (rule addMentioned_pointwise, intro ballI impI)
  fix m
  assume m: "m \<in> set ms"
    and v: "\<not> includesStr m ''test'' \<and> \<not> includesStr m ''node_modules'' \<and>
            fileExists (withDotSlash m) w"
  then have "withDotSlash m \<in> set (filter (\<lambda>path. fileExists path w)
             (map withDotSlash
                (filter (\<lambda>file. \<not> includesStr file ''test'' \<and> \<not> includesStr file ''node_modules'')
                   ms)))"
    by simp
  with assms show "withDotSlash m = p" by blast
qed

lemma parseTestOutput_first_frame:
  assumes "firstFrameFile output = Some matched" and "matched \<noteq> []"
      and "\<not> includesStr matched ''.test.''" and "\<not> includesStr matched ''node_modules''"
  shows "po_file (parseTestOutput output) = withDotSlash matched"
  using assms
  by (auto simp: firstFrameFile_def parseTestOutput_def Let_def split: option.splits)

lemma withDotSlash_nonempty: "matched \<noteq> [] \<Longrightarrow> withDotSlash matched \<noteq> []"
  by (simp add: withDotSlash_def)

lemma identifyFilesToFix_of_first_frame:
  assumes "firstFrameFile output = Some matched" and "matched \<noteq> []"
      and "\<not> includesStr matched ''.test.''" and "\<not> includesStr matched ''node_modules''"
      and "fileExists (withDotSlash matched) w"
      and "set (existingMentions output w) \<subseteq> {withDotSlash matched}"
  shows "identifyFilesToFix output w = [withDotSlash matched]"
proof -
  have p: "po_file (parseTestOutput output) = withDotSlash matched"
    using assms(1-4) by (rule parseTestOutput_first_frame)
  have "addMentioned w (rmatchAll mentionedFile output) [withDotSlash matched] =
          [withDotSlash matched]"
    using assms(6) unfolding existingMentions_def by (rule addMentioned_only)
  then show ?thesis
    using p assms(5) withDotSlash_nonempty[OF assms(2)]
    by (simp add: identifyFilesToFix_def Let_def setAdd_def)
qed

lemma cart_is_valid:
  "\<not> includesStr ''./cart.js'' ''.test.'' \<and> \<not> includesStr ''./cart.js'' ''node_modules'' \<and>
   withDotSlash ''./cart.js'' = ''./cart.js''"
  by code_simp

text \<open>
  C9, as the code has it. The primary file is the one named by the first stack frame that
  the pattern matches in the output. When that frame names a file that is neither a test
  file nor under \<open>node_modules\<close> and that exists, and the looser mentions of the output
  name no other existing file, the files to fix are exactly that one file. So when the
  first matched frame is \<open>at foo (./cart.js:10:3)\<close>, \<open>./cart.js\<close> exists and no other
  existing file is mentioned, the result is exactly \<open>./cart.js\<close>. For every output, no
  path is listed twice.
\<close>

theorem identifyFilesToFix_first_frame:
  "(firstFrameFile output = Some matched \<longrightarrow> matched \<noteq> [] \<longrightarrow>
      \<not> includesStr matched ''.test.'' \<longrightarrow> \<not> includesStr matched ''node_modules'' \<longrightarrow>
      fileExists (withDotSlash matched) w \<longrightarrow>
      set (existingMentions output w) \<subseteq> {withDotSlash matched} \<longrightarrow>
      identifyFilesToFix output w = [withDotSlash matched]) \<and>
   (firstFrameFile output = Some ''./cart.js'' \<longrightarrow> fileExists ''./cart.js'' w \<longrightarrow>
      set (existingMentions output w) \<subseteq> {''./cart.js''} \<longrightarrow>
      identifyFilesToFix output w = [''./cart.js'']) \<and>
   firstFrameFile ''at foo (./cart.js:10:3)'' = Some ''./cart.js'' \<and>
   distinct (identifyFilesToFix output w)"
proof (intro conjI impI)
  assume "firstFrameFile output = Some matched" "matched \<noteq> []"
    "\<not> includesStr matched ''.test.''" "\<not> includesStr matched ''node_modules''"
    "fileExists (withDotSlash matched) w"
    "set (existingMentions output w) \<subseteq> {withDotSlash matched}"
  then show "identifyFilesToFix output w = [withDotSlash matched]"
    by (rule identifyFilesToFix_of_first_frame)
next
  assume a: "firstFrameFile output = Some ''./cart.js''" and b: "fileExists ''./cart.js'' w"
    and c: "set (existingMentions output w) \<subseteq> {''./cart.js''}"
  have ne: "''./cart.js'' \<noteq> []" by simp
  note v = cart_is_valid
  have "identifyFilesToFix output w = [withDotSlash ''./cart.js'']"
    using a ne v b c
    by (intro identifyFilesToFix_of_first_frame) (simp_all only: conj_imp_eq_imp_imp, simp_all)
  then show "identifyFilesToFix output w = [''./cart.js'']" using v by simp
next
  show "firstFrameFile ''at foo (./cart.js:10:3)'' = Some ''./cart.js''" by code_simp
next
  show "distinct (identifyFilesToFix output w)" by (rule identifyFilesToFix_distinct)
qed

theorem identifyFilesToFix_first_frame_witness:
  "firstFrameFile jestOutput = Some ''./cart.js'' \<and>
   fileExists ''./cart.js'' twoFileWorld \<and>
   existingMentions jestOutput twoFileWorld = [''./cart.js''] \<and>
   identifyFilesToFix jestOutput twoFileWorld = [''./cart.js''] \<and>
   firstFrameFile utilOutput = Some ''./util.js'' \<and>
   ''./util.js'' \<noteq> [] \<and>
   \<not> includesStr ''./util.js'' ''.test.'' \<and> \<not> includesStr ''./util.js'' ''node_modules'' \<and>
   fileExists (withDotSlash ''./util.js'') twoFileWorld \<and>
   existingMentions utilOutput twoFileWorld = [] \<and>
   identifyFilesToFix utilOutput twoFileWorld = [withDotSlash ''./util.js'']"
proof -
  have a1: "firstFrameFile jestOutput = Some ''./cart.js''" by code_simp
  have a2: "fileExists ''./cart.js'' twoFileWorld" by (simp add: fileExists_def twoFileWorld_def)
  have a3: "existingMentions jestOutput twoFileWorld = [''./cart.js'']" by code_simp
  have a4: "set (existingMentions jestOutput twoFileWorld) \<subseteq> {''./cart.js''}"
    by (simp only: a3) simp
  note a5 = identifyFilesToFix_first_frame[of jestOutput "[]" twoFileWorld,
              THEN conjunct2, THEN conjunct1, rule_format, OF a1 a2 a4]
  have b1: "firstFrameFile utilOutput = Some ''./util.js''" by code_simp
  have b2: "''./util.js'' \<noteq> []" by simp
  have b3: "\<not> includesStr ''./util.js'' ''.test.''" by code_simp
  have b4: "\<not> includesStr ''./util.js'' ''node_modules''" by code_simp
  have b5: "fileExists (withDotSlash ''./util.js'') twoFileWorld" by code_simp
  have b6: "existingMentions utilOutput twoFileWorld = []" by code_simp
  have b7: "set (existingMentions utilOutput twoFileWorld) \<subseteq> {withDotSlash ''./util.js''}"
    by (simp only: b6) simp
  note b8 = identifyFilesToFix_first_frame[of utilOutput "''./util.js''" twoFileWorld,
              THEN conjunct1, rule_format, OF b1 b2 b3 b4 b5 b7]
  show ?thesis using a1 a2 a3 a5 b1 b2 b3 b4 b5 b6 b8 by (intro conjI)
qed

text \<open>
  C9 as the spec states it fails on outputs that contain the frame and more. Where another
  frame comes first, the first frame names the file, and a path that starts with a dot is
  not picked up by the looser pattern, so \<open>./cart.js\<close> is not even in the list. Where the
  frame comes first and the output goes on to mention a second existing file, the list has
  two members.
\<close>

theorem identifyFilesToFix_two_frames:
  "includesStr twoFrameOutput ''at foo (./cart.js:10:3)'' \<and>
   fileExists ''./cart.js'' twoFileWorld \<and>
   identifyFilesToFix twoFrameOutput twoFileWorld = [''./util.js''] \<and>
   includesStr mentionOutput ''at foo (./cart.js:10:3)'' \<and>
   identifyFilesToFix mentionOutput twoFileWorld = [''./cart.js'', ''./util.js'']"
proof (intro conjI)
  show "includesStr twoFrameOutput ''at foo (./cart.js:10:3)''" by code_simp
  show "fileExists ''./cart.js'' twoFileWorld" by (simp add: fileExists_def twoFileWorld_def)
  show "identifyFilesToFix twoFrameOutput twoFileWorld = [''./util.js'']" by code_simp
  show "includesStr mentionOutput ''at foo (./cart.js:10:3)''" by code_simp
  show "identifyFilesToFix mentionOutput twoFileWorld = [''./cart.js'', ''./util.js'']"
    by code_simp
qed

section \<open>The retries\<close>

lemma fixEach_returns: "\<exists>fl w'. fixEach e cfg out fs acc w = (Inr fl, w')"
proof (induction fs arbitrary: acc w)
  case Nil
  show ?case by simp
next
  case (Cons fname rest)
  let ?opts = "\<lparr>fo_configPath = None, fo_model = Some (cc_model cfg), fo_maxTokens = None,
                 fo_temperature = None, fo_maxRetries = None,
                 fo_testCommand = Some (cc_testCommand cfg),
                 fo_configType = Some (cc_configType cfg)\<rparr>"
  obtain res w1 where "fixBug e fname (po_error (parseTestOutput out)) ?opts w = (Inr res, w1)"
    using fixBug_returns by blast
  then show ?case using Cons.IH[of "acc @ [res]" w1] by (simp add: Let_def)
qed

lemma runCIFix_returns: "\<exists>r w'. runCIFix e options w = (Inr r, w')"
proof -
  let ?cfg = "createCIConfig options"
  obtain t w1 where rt: "runTests e (Some (cc_testCommand ?cfg)) w = (t, w1)"
    by (cases "runTests e (Some (cc_testCommand ?cfg)) w")
  let ?out = "tr_output t @ (case tr_error t of None \<Rightarrow> [] | Some s \<Rightarrow> s)"
  obtain fl w2 where fe: "fixEach e ?cfg ?out (identifyFilesToFix ?out w1) [] w1 = (Inr fl, w2)"
    using fixEach_returns by blast
  obtain c w3 where cf: "commitFixes e (cc_commitMessage ?cfg) (cc_autoPush ?cfg) w2 = (c, w3)"
    by (cases "commitFixes e (cc_commitMessage ?cfg) (cc_autoPush ?cfg) w2")
  show ?thesis using rt fe cf by (simp add: runCIFix_def Let_def)
qed

lemma ciRound_returns: "\<exists>r p w2. ciRound e options w = (Inr r, p, w2)"
proof -
  obtain r w1 where a: "runCIFix e options w = (Inr r, w1)" using runCIFix_returns by blast
  then show ?thesis by (simp add: ciRound_def split: prod.splits)
qed

lemma retryLoop_round:
  assumes "ciRound e options w = (Inr r, p, w2)"
      and "attempt \<le> cc_maxRetries (createCIConfig options)"
  shows "retryLoop e options (createCIConfig options) attempt prev w =
           (if p
            then (Inr \<lparr>rr_result = Some r, finalTestsPassed = True, attempts = attempt\<rparr>, w2)
            else retryLoop e options (createCIConfig options) (attempt + 1) (Some r) w2)"
  using assms
  by (subst retryLoop.simps) (auto simp: ciRound_def split: prod.splits)

lemma retryLoop_exhausted:
  assumes "\<not> attempt \<le> cc_maxRetries cfg"
  shows "retryLoop e options cfg attempt prev w =
           (Inr \<lparr>rr_result = prev, finalTestsPassed = False, attempts = cc_maxRetries cfg\<rparr>, w)"
  using assms by (subst retryLoop.simps) simp

lemma retryLoop_success:
  assumes le: "n \<le> cc_maxRetries (createCIConfig options)"
      and pass: "roundPasses e options w n"
  shows "j < n \<Longrightarrow> (\<forall>k. j < k \<and> k < n \<longrightarrow> \<not> roundPasses e options w k) \<Longrightarrow>
         \<exists>r. roundResult e options w n = Inr r \<and>
             retryLoop e options (createCIConfig options) (Suc j) prev (afterRounds e options j w) =
               (Inr \<lparr>rr_result = Some r, finalTestsPassed = True, attempts = n\<rparr>,
                afterRounds e options n w)"
proof (induction "n - Suc j" arbitrary: j prev)
  case 0
  then have n: "n = Suc j" by simp
  obtain r p w2 where c: "ciRound e options (afterRounds e options j w) = (Inr r, p, w2)"
    using ciRound_returns by blast
  have p: "p" using pass c n by (simp add: roundPasses_def)
  have rr: "roundResult e options w n = Inr r" using c n by (simp add: roundResult_def)
  have w2: "afterRounds e options n w = w2" using c n by simp
  have "Suc j \<le> cc_maxRetries (createCIConfig options)" using le n by simp
  from retryLoop_round[OF c this, of prev] p rr w2 n show ?case by simp
next
  case (Suc d)
  then have lt: "Suc j < n" by simp
  obtain r p w2 where c: "ciRound e options (afterRounds e options j w) = (Inr r, p, w2)"
    using ciRound_returns by blast
  have "\<not> roundPasses e options w (Suc j)" using Suc.prems(2) lt by simp
  then have p: "\<not> p" using c by (simp add: roundPasses_def)
  have w2: "afterRounds e options (Suc j) w = w2" using c by simp
  have a: "Suc j \<le> cc_maxRetries (createCIConfig options)" using le lt by simp
  have d: "d = n - Suc (Suc j)" using Suc.hyps(2) by simp
  have rest: "\<forall>k. Suc j < k \<and> k < n \<longrightarrow> \<not> roundPasses e options w k"
    using Suc.prems(2) by simp
  from Suc.hyps(1)[OF d lt rest, of "Some r"] retryLoop_round[OF c a, of prev] p w2
  show ?case by simp
qed

lemma retryLoop_failure:
  "j \<le> cc_maxRetries (createCIConfig options) \<Longrightarrow>
   (\<forall>k. j < k \<and> k \<le> cc_maxRetries (createCIConfig options) \<longrightarrow> \<not> roundPasses e options w k) \<Longrightarrow>
   \<exists>res. (if j < cc_maxRetries (createCIConfig options)
           then \<exists>r. roundResult e options w (cc_maxRetries (createCIConfig options)) = Inr r \<and>
                     res = Some r
           else res = prev) \<and>
     retryLoop e options (createCIConfig options) (Suc j) prev (afterRounds e options j w) =
       (Inr \<lparr>rr_result = res, finalTestsPassed = False,
             attempts = cc_maxRetries (createCIConfig options)\<rparr>,
        afterRounds e options (cc_maxRetries (createCIConfig options)) w)"
proof (induction "cc_maxRetries (createCIConfig options) - j" arbitrary: j prev)
  case 0
  then have j: "j = cc_maxRetries (createCIConfig options)" by simp
  then have "\<not> Suc j \<le> cc_maxRetries (createCIConfig options)" by simp
  from retryLoop_exhausted[OF this] j show ?case by simp
next
  case (Suc d)
  let ?M = "cc_maxRetries (createCIConfig options)"
  from Suc have lt: "j < ?M" by simp
  obtain r p w2 where c: "ciRound e options (afterRounds e options j w) = (Inr r, p, w2)"
    using ciRound_returns by blast
  have "\<not> roundPasses e options w (Suc j)" using Suc.prems(2) lt by simp
  then have p: "\<not> p" using c by (simp add: roundPasses_def)
  have w2: "afterRounds e options (Suc j) w = w2" using c by simp
  have a: "Suc j \<le> ?M" using lt by simp
  have d: "d = ?M - Suc j" using Suc.hyps(2) by simp
  have rest: "\<forall>k. Suc j < k \<and> k \<le> ?M \<longrightarrow> \<not> roundPasses e options w k"
    using Suc.prems(2) by simp
  from Suc.hyps(1)[OF d a rest, of "Some r"] obtain res where
    res: "if Suc j < ?M then \<exists>r. roundResult e options w ?M = Inr r \<and> res = Some r
          else res = Some r"
    and loop: "retryLoop e options (createCIConfig options) (Suc (Suc j)) (Some r)
                 (afterRounds e options (Suc j) w) =
               (Inr \<lparr>rr_result = res, finalTestsPassed = False, attempts = ?M\<rparr>,
                afterRounds e options ?M w)"
    by blast
  have "\<exists>r'. roundResult e options w ?M = Inr r' \<and> res = Some r'"
  proof (cases "Suc j < ?M")
    case True
    with res show ?thesis by simp
  next
    case False
    with a have "?M = Suc j" by simp
    then have "roundResult e options w ?M = Inr r" using c by (simp add: roundResult_def)
    moreover have "res = Some r" using res False by simp
    ultimately show ?thesis by simp
  qed
  moreover have "retryLoop e options (createCIConfig options) (Suc j) prev (afterRounds e options j w) =
       (Inr \<lparr>rr_result = res, finalTestsPassed = False, attempts = ?M\<rparr>,
        afterRounds e options ?M w)"
    using retryLoop_round[OF c a, of prev] p w2 loop by simp
  ultimately show ?case using lt by auto
qed

lemma maxRetries_positive: "1 \<le> cc_maxRetries (createCIConfig options)"
  by (simp add: createCIConfig_def natOr_def split: option.splits)

section \<open>The history only grows\<close>

lemma runTests_grows: "length (trace w) \<le> length (trace (snd (runTests e cmd w)))"
  by (simp add: runTests_def split: option.splits exec_outcome.splits)

lemma runTests_command_logged:
  "length (trace (snd (runTests e (Some cmd) w))) = Suc (length (trace w))"
  by (simp add: runTests_def split: exec_outcome.splits)

lemma writeFileContent_grows:
  "length (trace w) \<le> length (trace (snd (writeFileContent e f c w)))"
  by (simp add: writeFileContent_trace)

lemma trackUsage_grows: "length (trace w) \<le> length (trace (trackUsage e cfg u w))"
  by (simp add: trackUsage_def Let_def split: option.splits sum.splits)

lemma analyzeAndFix_grows:
  "length (trace w) \<le> length (trace (snd (analyzeAndFix e code f m cfg w)))"
proof -
  have "length (trace w) \<le> length (trace (trackUsage e cfg u (logEvent ev w)))" for u ev
    using trackUsage_grows[of "logEvent ev w" e cfg u] by simp
  then show ?thesis
    by (simp add: analyzeAndFix_def Let_def split: sum.splits)
qed

lemma applyAndTest_grows:
  "length (trace w) \<le> length (trace (snd (applyAndTest e f orig fixed cfg w)))"
proof -
  obtain r1 w1 where a: "writeFileContent e f fixed w = (r1, w1)"
    by (cases "writeFileContent e f fixed w")
  obtain t w2 where b: "runTests e (fc_testCommand cfg) w1 = (t, w2)"
    by (cases "runTests e (fc_testCommand cfg) w1")
  obtain r3 w3 where c: "writeFileContent e f orig w2 = (r3, w3)"
    by (cases "writeFileContent e f orig w2")
  have 1: "length (trace w) \<le> length (trace w1)"
    using writeFileContent_grows[of w e f fixed] a by simp
  have 2: "length (trace w1) \<le> length (trace w2)"
    using runTests_grows[of w1 e "fc_testCommand cfg"] b by simp
  have 3: "length (trace w2) \<le> length (trace w3)"
    using writeFileContent_grows[of w2 e f orig] c by simp
  show ?thesis
    using a b c 1 2 3 by (simp add: applyAndTest_def split: sum.splits)
qed

lemma fixBugTry_grows:
  "length (trace w) \<le> length (trace (snd (fixBugTry e f m opts w)))"
proof (cases "createFixConfig e opts w")
  case (Inl err)
  then show ?thesis by (simp add: fixBugTry_def)
next
  case (Inr cfg)
  show ?thesis
  proof (cases "files w f")
    case None
    then show ?thesis using Inr by (simp add: fixBugTry_def fileExists_def)
  next
    case (Some orig)
    obtain r w1 where a: "analyzeAndFix e orig f m cfg w = (r, w1)"
      by (cases "analyzeAndFix e orig f m cfg w")
    have 1: "length (trace w) \<le> length (trace w1)"
      using analyzeAndFix_grows[of w e orig f m cfg] a by simp
    show ?thesis
    proof (cases r)
      case (Inl err)
      then show ?thesis using fixBugTry_proposal_error[OF Inr Some] a 1 by simp
    next
      case fixedCase: (Inr fixed)
      obtain r2 w2 where b: "applyAndTest e f orig fixed cfg w1 = (r2, w2)"
        by (cases "applyAndTest e f orig fixed cfg w1")
      have 2: "length (trace w1) \<le> length (trace w2)"
        using applyAndTest_grows[of w1 e f orig fixed cfg] b by simp
      have "snd (fixBugTry e f m opts w) = w2"
        using fixBugTry_applied[OF Inr Some] a fixedCase b by (simp split: sum.splits)
      then show ?thesis using 1 2 by simp
    qed
  qed
qed

lemma fixBug_grows: "length (trace w) \<le> length (trace (snd (fixBug e f m opts w)))"
proof -
  have "snd (fixBug e f m opts w) = snd (fixBugTry e f m opts w)"
    by (cases "fixBugTry e f m opts w") (simp add: fixBug_of_try split: sum.splits)
  then show ?thesis using fixBugTry_grows[of w e f m opts] by simp
qed

lemma fixEach_grows:
  "length (trace w) \<le> length (trace (snd (fixEach e cfg out fs acc w)))"
proof (induction fs arbitrary: acc w)
  case Nil
  show ?case by simp
next
  case (Cons fname rest)
  let ?opts = "\<lparr>fo_configPath = None, fo_model = Some (cc_model cfg), fo_maxTokens = None,
                 fo_temperature = None, fo_maxRetries = None,
                 fo_testCommand = Some (cc_testCommand cfg),
                 fo_configType = Some (cc_configType cfg)\<rparr>"
  obtain res w1 where a: "fixBug e fname (po_error (parseTestOutput out)) ?opts w = (Inr res, w1)"
    using fixBug_returns by blast
  have "length (trace w) \<le> length (trace w1)"
    using fixBug_grows[of w e fname "po_error (parseTestOutput out)" ?opts] a by simp
  moreover have "length (trace w1) \<le> length (trace (snd (fixEach e cfg out rest (acc @ [res]) w1)))"
    by (rule Cons.IH)
  ultimately show ?case using a by (simp add: Let_def)
qed

lemma execQuiet_grows: "length (trace w) \<le> length (trace (snd (execQuiet e cmd w)))"
  by (simp add: execQuiet_def split: exec_outcome.splits)

lemma configureGit_grows:
  "length (trace w) \<le> length (trace (snd (configureGit e name email w)))"
proof -
  obtain ok1 w1 where a: "execQuiet e (''git config user.name '' @ quoted name) w = (ok1, w1)"
    by (cases "execQuiet e (''git config user.name '' @ quoted name) w")
  have 1: "length (trace w) \<le> length (trace w1)"
    using execQuiet_grows[of w e "''git config user.name '' @ quoted name"] a by simp
  have 2: "length (trace w1) \<le>
           length (trace (snd (execQuiet e (''git config user.email '' @ quoted email) w1)))"
    by (rule execQuiet_grows)
  show ?thesis using a 1 2 by (simp add: configureGit_def)
qed

lemma commitFixes_grows:
  "length (trace w) \<le> length (trace (snd (commitFixes e message shouldPush w)))"
proof -
  obtain g w1 where a: "configureGit e ''Auto Bug Fixer'' ''action@github.com'' w = (g, w1)"
    by (cases "configureGit e ''Auto Bug Fixer'' ''action@github.com'' w")
  obtain s w2 where b: "stageChanges e w1 = (s, w2)" by (cases "stageChanges e w1")
  obtain c w3 where c: "commitChanges e message w2 = (c, w3)"
    by (cases "commitChanges e message w2")
  obtain p w4 where d: "pushChanges e w3 = (p, w4)" by (cases "pushChanges e w3")
  have 1: "length (trace w) \<le> length (trace w1)"
    using configureGit_grows[of w e "''Auto Bug Fixer''" "''action@github.com''"] a by simp
  have 2: "length (trace w1) \<le> length (trace w2)"
    using execQuiet_grows[of w1 e "''git add .''"] b by (simp add: stageChanges_def)
  have 3: "length (trace w2) \<le> length (trace w3)"
    using execQuiet_grows[of w2 e "''git commit -m '' @ quoted message"] c
    by (simp add: commitChanges_def)
  have 4: "length (trace w3) \<le> length (trace w4)"
    using execQuiet_grows[of w3 e "''git push''"] d by (simp add: pushChanges_def)
  show ?thesis using a b c d 1 2 3 4 by (simp add: commitFixes_def)
qed

lemma runCIFix_grows:
  "Suc (length (trace w)) \<le> length (trace (snd (runCIFix e options w)))"
proof -
  let ?cfg = "createCIConfig options"
  obtain t w1 where rt: "runTests e (Some (cc_testCommand ?cfg)) w = (t, w1)"
    by (cases "runTests e (Some (cc_testCommand ?cfg)) w")
  have 1: "length (trace w1) = Suc (length (trace w))"
    using runTests_command_logged[of e "cc_testCommand ?cfg" w] rt by simp
  let ?out = "tr_output t @ (case tr_error t of None \<Rightarrow> [] | Some s \<Rightarrow> s)"
  obtain fl w2 where fe: "fixEach e ?cfg ?out (identifyFilesToFix ?out w1) [] w1 = (Inr fl, w2)"
    using fixEach_returns by blast
  have 2: "length (trace w1) \<le> length (trace w2)"
    using fixEach_grows[of w1 e ?cfg ?out "identifyFilesToFix ?out w1" "[]"] fe by simp
  obtain c w3 where cf: "commitFixes e (cc_commitMessage ?cfg) (cc_autoPush ?cfg) w2 = (c, w3)"
    by (cases "commitFixes e (cc_commitMessage ?cfg) (cc_autoPush ?cfg) w2")
  have 3: "length (trace w2) \<le> length (trace w3)"
    using commitFixes_grows[of w2 e "cc_commitMessage ?cfg" "cc_autoPush ?cfg"] cf by simp
  show ?thesis using rt fe cf 1 2 3 by (simp add: runCIFix_def Let_def)
qed

lemma ciRound_grows:
  "length (trace w) + 2 \<le> length (trace (snd (snd (ciRound e options w))))"
proof -
  obtain r w1 where a: "runCIFix e options w = (r, w1)" by (cases "runCIFix e options w")
  have 1: "Suc (length (trace w)) \<le> length (trace w1)"
    using runCIFix_grows[of w e options] a by simp
  obtain t w2 where b: "runTests e (Some (cc_testCommand (createCIConfig options))) w1 = (t, w2)"
    by (cases "runTests e (Some (cc_testCommand (createCIConfig options))) w1")
  have 2: "length (trace w2) = Suc (length (trace w1))"
    using runTests_command_logged[of e "cc_testCommand (createCIConfig options)" w1] b by simp
  show ?thesis using a b 1 2 by (simp add: ciRound_def)
qed

lemma afterRounds_grows:
  "length (trace (afterRounds e options k w)) < length (trace (afterRounds e options (Suc k) w))"
  using ciRound_grows[of "afterRounds e options k w" e options] by simp

text \<open>
  C8. \<open>runCIFixWithRetries\<close> runs rounds of \<open>runCIFix\<close>, each followed by a run of the
  configured test command. If round \<open>n\<close>, within the configured \<open>maxRetries\<close>, is the first
  whose test run passes, the function returns \<open>finalTestsPassed = true\<close> and
  \<open>attempts = n\<close> with the last round's result, in the state reached after exactly \<open>n\<close>
  rounds. If no round up to \<open>maxRetries\<close> passes, it returns \<open>finalTestsPassed = false\<close>
  and \<open>attempts = maxRetries\<close> after exactly \<open>maxRetries\<close> rounds. In every case the
  number of rounds run is at most \<open>maxRetries\<close>. Every round adds to the history of
  commands, so the state after \<open>n\<close> rounds is not the state after \<open>n + 1\<close>.
\<close>

theorem runCIFixWithRetries_rounds:
  "(\<forall>n. 1 \<le> n \<longrightarrow> n \<le> cc_maxRetries (createCIConfig options) \<longrightarrow>
        roundPasses e options w n \<longrightarrow>
        (\<forall>k. 1 \<le> k \<and> k < n \<longrightarrow> \<not> roundPasses e options w k) \<longrightarrow>
        (\<exists>r. roundResult e options w n = Inr r \<and>
             runCIFixWithRetries e options w =
               (Inr \<lparr>rr_result = Some r, finalTestsPassed = True, attempts = n\<rparr>,
                afterRounds e options n w))) \<and>
   ((\<forall>k. 1 \<le> k \<and> k \<le> cc_maxRetries (createCIConfig options) \<longrightarrow>
          \<not> roundPasses e options w k) \<longrightarrow>
        (\<exists>r. roundResult e options w (cc_maxRetries (createCIConfig options)) = Inr r \<and>
             runCIFixWithRetries e options w =
               (Inr \<lparr>rr_result = Some r, finalTestsPassed = False,
                     attempts = cc_maxRetries (createCIConfig options)\<rparr>,
                afterRounds e options (cc_maxRetries (createCIConfig options)) w))) \<and>
   (\<exists>n res. n \<le> cc_maxRetries (createCIConfig options) \<and>
            runCIFixWithRetries e options w = (Inr res, afterRounds e options n w) \<and>
            attempts res = n) \<and>
   (\<forall>k. length (trace (afterRounds e options k w)) <
        length (trace (afterRounds e options (Suc k) w)))"
proof -
  let ?M = "cc_maxRetries (createCIConfig options)"
  have A: "\<exists>r. roundResult e options w n = Inr r \<and>
             runCIFixWithRetries e options w =
               (Inr \<lparr>rr_result = Some r, finalTestsPassed = True, attempts = n\<rparr>,
                afterRounds e options n w)"
    if "1 \<le> n" "n \<le> ?M" "roundPasses e options w n"
       "\<forall>k. 1 \<le> k \<and> k < n \<longrightarrow> \<not> roundPasses e options w k" for n
  proof -
    have "0 < n" using that(1) by simp
    moreover have "\<forall>k. 0 < k \<and> k < n \<longrightarrow> \<not> roundPasses e options w k" using that(4) by simp
    ultimately show ?thesis
      using retryLoop_success[OF that(2) that(3), of 0 None]
      by (simp add: runCIFixWithRetries_def)
  qed
  have B: "\<exists>r. roundResult e options w ?M = Inr r \<and>
             runCIFixWithRetries e options w =
               (Inr \<lparr>rr_result = Some r, finalTestsPassed = False, attempts = ?M\<rparr>,
                afterRounds e options ?M w)"
    if "\<forall>k. 1 \<le> k \<and> k \<le> ?M \<longrightarrow> \<not> roundPasses e options w k"
  proof -
    have "\<forall>k. 0 < k \<and> k \<le> ?M \<longrightarrow> \<not> roundPasses e options w k" using that by simp
    moreover have "0 < ?M" using maxRetries_positive[of options] by simp
    ultimately show ?thesis
      using retryLoop_failure[of 0 options e w None]
      by (auto simp: runCIFixWithRetries_def)
  qed
  have C: "\<exists>n res. n \<le> ?M \<and>
            runCIFixWithRetries e options w = (Inr res, afterRounds e options n w) \<and>
            attempts res = n"
  proof (cases "\<exists>k. 1 \<le> k \<and> k \<le> ?M \<and> roundPasses e options w k")
    case True
    define n where "n = (LEAST k. 1 \<le> k \<and> k \<le> ?M \<and> roundPasses e options w k)"
    have n: "1 \<le> n \<and> n \<le> ?M \<and> roundPasses e options w n"
      unfolding n_def using True by (rule LeastI_ex)
    have least: "\<forall>k. 1 \<le> k \<and> k < n \<longrightarrow> \<not> roundPasses e options w k"
    proof (intro allI impI)
      fix k assume k: "1 \<le> k \<and> k < n"
      show "\<not> roundPasses e options w k"
      proof
        assume "roundPasses e options w k"
        with k n have "1 \<le> k \<and> k \<le> ?M \<and> roundPasses e options w k" by simp
        then have "n \<le> k" unfolding n_def by (rule Least_le)
        with k show False by simp
      qed
    qed
    from A[of n] n least obtain r where
      "runCIFixWithRetries e options w =
         (Inr \<lparr>rr_result = Some r, finalTestsPassed = True, attempts = n\<rparr>,
          afterRounds e options n w)" by blast
    with n show ?thesis by auto
  next
    case False
    then have "\<forall>k. 1 \<le> k \<and> k \<le> ?M \<longrightarrow> \<not> roundPasses e options w k" by blast
    from B[OF this] obtain r where
      "runCIFixWithRetries e options w =
         (Inr \<lparr>rr_result = Some r, finalTestsPassed = False, attempts = ?M\<rparr>,
          afterRounds e options ?M w)" by blast
    then show ?thesis by auto
  qed
  have D: "\<forall>k. length (trace (afterRounds e options k w)) <
             length (trace (afterRounds e options (Suc k) w))"
    by (intro allI) (rule afterRounds_grows)
  show ?thesis using A B C D by blast
qed

theorem runCIFixWithRetries_rounds_witness:
  "(1::nat) \<le> 2 \<and> 2 \<le> cc_maxRetries (createCIConfig noCIOptions) \<and>
   roundPasses flakyEnv noCIOptions emptyWorld 2 \<and>
   \<not> roundPasses flakyEnv noCIOptions emptyWorld 1 \<and>
   (\<exists>r. roundResult flakyEnv noCIOptions emptyWorld 2 = Inr r \<and>
        runCIFixWithRetries flakyEnv noCIOptions emptyWorld =
          (Inr \<lparr>rr_result = Some r, finalTestsPassed = True, attempts = 2\<rparr>,
           afterRounds flakyEnv noCIOptions 2 emptyWorld)) \<and>
   cc_maxRetries (createCIConfig twoRetries) = 2 \<and>
   \<not> roundPasses failingEnv twoRetries emptyWorld 1 \<and>
   \<not> roundPasses failingEnv twoRetries emptyWorld 2 \<and>
   (\<exists>r. roundResult failingEnv twoRetries emptyWorld (cc_maxRetries (createCIConfig twoRetries)) =
          Inr r \<and>
        runCIFixWithRetries failingEnv twoRetries emptyWorld =
          (Inr \<lparr>rr_result = Some r, finalTestsPassed = False,
                attempts = cc_maxRetries (createCIConfig twoRetries)\<rparr>,
           afterRounds failingEnv twoRetries (cc_maxRetries (createCIConfig twoRetries)) emptyWorld))"
proof -
  have h1: "(1::nat) \<le> 2" by simp
  have h2: "2 \<le> cc_maxRetries (createCIConfig noCIOptions)" by code_simp
  have h3: "roundPasses flakyEnv noCIOptions emptyWorld 2" by code_simp
  have h4: "\<not> roundPasses flakyEnv noCIOptions emptyWorld 1" by code_simp
  have h5: "\<forall>k. 1 \<le> k \<and> k < 2 \<longrightarrow> \<not> roundPasses flakyEnv noCIOptions emptyWorld k"
  proof (intro allI impI)
    fix k :: nat assume "1 \<le> k \<and> k < 2"
    then have "k = 1" by simp
    then show "\<not> roundPasses flakyEnv noCIOptions emptyWorld k" using h4 by simp
  qed
  note s = runCIFixWithRetries_rounds[of noCIOptions flakyEnv emptyWorld,
             THEN conjunct1, rule_format, OF h1 h2 h3 h5[rule_format]]
  have g1: "cc_maxRetries (createCIConfig twoRetries) = 2" by code_simp
  have g2: "\<not> roundPasses failingEnv twoRetries emptyWorld 1" by code_simp
  have g3: "\<not> roundPasses failingEnv twoRetries emptyWorld 2" by code_simp
  have g4: "\<forall>k. 1 \<le> k \<and> k \<le> cc_maxRetries (createCIConfig twoRetries) \<longrightarrow>
              \<not> roundPasses failingEnv twoRetries emptyWorld k"
  proof (intro allI impI)
    fix k :: nat assume "1 \<le> k \<and> k \<le> cc_maxRetries (createCIConfig twoRetries)"
    then have "k = 1 \<or> k = 2" using g1 by auto
    then show "\<not> roundPasses failingEnv twoRetries emptyWorld k" using g2 g3 by auto
  qed
  note f = runCIFixWithRetries_rounds[of twoRetries failingEnv emptyWorld,
             THEN conjunct2, THEN conjunct1, rule_format, OF g4[rule_format]]
  show ?thesis using h1 h2 h3 h4 s g1 g2 g3 f by (intro conjI)
qed

end
